theory Spec2Isabelle
  imports Complex_Main
begin

section \<open>JavaScript values\<close>

text \<open>
  The API service (\<^verbatim>\<open>services/api\<close>) works on dynamically typed values. Numbers are IEEE
  doubles: the finite ones are rationals, and \<open>NaN\<close> and the two infinities are kept apart
  because \<^verbatim>\<open>Number(x) || 0\<close> and \<^verbatim>\<open>Math.min\<close>/\<^verbatim>\<open>Math.max\<close> treat them specially. Strings are
  lists of characters with code points below 256. \<open>JBigInt\<close> is a BigInt, a value a caller
  can pass that \<^verbatim>\<open>JSON.stringify\<close> refuses. An object is the list of its own enumerable
  properties, each key once, in the order \<^verbatim>\<open>Object.entries\<close> lists them, and its prototype:
  \<open>None\<close> is \<^verbatim>\<open>Object.prototype\<close>, \<open>Some v\<close> is the object, array or \<^verbatim>\<open>null\<close> that an
  assignment to \<^verbatim>\<open>__proto__\<close> installed. Values are finite: an object that contains itself
  is not represented.
\<close>

datatype jsnum = NaN | NegInf | Fin rat | PosInf

datatype jsvalue =
    JUndefined
  | JNull
  | JBool bool
  | JNum jsnum
  | JBigInt int
  | JStr string
  | JArr "jsvalue list"
  | JObj "(string \<times> jsvalue) list" "jsvalue option"

text \<open>Truthiness, as \<^verbatim>\<open>!x\<close>, \<^verbatim>\<open>x || y\<close>, \<^verbatim>\<open>Boolean(x)\<close> and \<^verbatim>\<open>if (x)\<close> use it.\<close>

fun truthy :: "jsvalue \<Rightarrow> bool" where
  "truthy JUndefined = False"
| "truthy JNull = False"
| "truthy (JBool b) = b"
| "truthy (JNum n) = (n \<noteq> NaN \<and> n \<noteq> Fin 0)"
| "truthy (JBigInt n) = (n \<noteq> 0)"
| "truthy (JStr s) = (s \<noteq> [])"
| "truthy (JArr xs) = True"
| "truthy (JObj kvs proto) = True"

text \<open>\<^verbatim>\<open>a || b\<close>\<close>

definition js_or :: "jsvalue \<Rightarrow> jsvalue \<Rightarrow> jsvalue" where
  "js_or a b = (if truthy a then a else b)"

text \<open>\<^verbatim>\<open>typeof x === 'object'\<close> (true of \<^verbatim>\<open>null\<close>, arrays and objects).\<close>

fun typeof_object :: "jsvalue \<Rightarrow> bool" where
  "typeof_object JNull = True"
| "typeof_object (JArr xs) = True"
| "typeof_object (JObj kvs proto) = True"
| "typeof_object v = False"

text \<open>\<^verbatim>\<open>x === null || x === undefined\<close>: reading a property of such a value throws.\<close>

fun nullish :: "jsvalue \<Rightarrow> bool" where
  "nullish JNull = True"
| "nullish JUndefined = True"
| "nullish v = False"

text \<open>
  Property read \<^verbatim>\<open>x.k\<close> and the operator \<^verbatim>\<open>k in x\<close>, for the field names the service uses
  (none of them is an array index or a property of a built-in prototype): the own
  properties first, then the prototype chain. Reading a property of \<^verbatim>\<open>null\<close> or
  \<^verbatim>\<open>undefined\<close> throws; the callers below guard that case themselves.
\<close>

fun get_prop :: "jsvalue \<Rightarrow> string \<Rightarrow> jsvalue" where
  "get_prop (JObj kvs proto) k =
     (case map_of kvs k of
        Some v \<Rightarrow> v
      | None \<Rightarrow> (case proto of Some p \<Rightarrow> get_prop p k | None \<Rightarrow> JUndefined))"
| "get_prop v k = JUndefined"

fun has_prop :: "string \<Rightarrow> jsvalue \<Rightarrow> bool" where
  "has_prop k (JObj kvs proto) =
     (if k \<in> fst ` set kvs then True
      else (case proto of Some p \<Rightarrow> has_prop k p | None \<Rightarrow> False))"
| "has_prop k v = False"

fun is_array :: "jsvalue \<Rightarrow> bool" where
  "is_array (JArr xs) = True"
| "is_array v = False"

text \<open>
  \<^verbatim>\<open>JSON.stringify(x)\<close> walks the own enumerable properties and throws a \<^verbatim>\<open>TypeError\<close> when
  it meets a BigInt.
\<close>

fun serialisable :: "jsvalue \<Rightarrow> bool" where
  "serialisable (JBigInt n) = False"
| "serialisable (JArr xs) = list_all serialisable xs"
| "serialisable (JObj kvs proto) = list_all (\<lambda>kv. serialisable (snd kv)) kvs"
| "serialisable v = True"

subsection \<open>Thrown errors\<close>

text \<open>
  \<^verbatim>\<open>class ApiError extends Error\<close> carries \<open>message\<close>, \<open>status\<close> and \<open>data\<close>; its \<open>name\<close> is
  \<^verbatim>\<open>'ApiError'\<close>. Every other thrown error (\<^verbatim>\<open>TypeError\<close>, \<^verbatim>\<open>SyntaxError\<close>, the \<^verbatim>\<open>AbortError\<close>
  of an aborted fetch) has a name and a message and no \<open>status\<close>.
\<close>

datatype exn =
    ApiError string int jsvalue
  | JsError string string

fun exn_name :: "exn \<Rightarrow> string" where
  "exn_name (ApiError m s d) = ''ApiError''"
| "exn_name (JsError n m) = n"

fun exn_message :: "exn \<Rightarrow> string" where
  "exn_message (ApiError m s d) = m"
| "exn_message (JsError n m) = m"

text \<open>\<^verbatim>\<open>error.status\<close>: \<open>None\<close> is \<^verbatim>\<open>undefined\<close>.\<close>

fun exn_status :: "exn \<Rightarrow> int option" where
  "exn_status (ApiError m s d) = Some s"
| "exn_status (JsError n m) = None"

fun instanceof_ApiError :: "exn \<Rightarrow> bool" where
  "instanceof_ApiError (ApiError m s d) = True"
| "instanceof_ApiError (JsError n m) = False"

subsection \<open>Awaiting\<close>

text \<open>
  What \<^verbatim>\<open>await p\<close> gives its caller: \<open>Got x\<close> when the promise settles, and \<open>Never\<close> when
  it stays pending for ever, so that the caller never runs on.
\<close>

datatype 'a awaited = Never | Got 'a

subsection \<open>Built-ins of the runtime and configuration\<close>

text \<open>
  The functions of the JavaScript runtime and of the DOMPurify package that the service
  calls, and the build flag it reads, are parameters of the model:
  \<^item> \<open>purify s\<close> is \<^verbatim>\<open>DOMPurify.sanitize(s, { ALLOWED_TAGS: [], ALLOWED_ATTR: [] })\<close>;
  \<^item> \<open>jsonParse\<close> is \<^verbatim>\<open>JSON.parse\<close> (\<open>None\<close> when it throws), \<open>jsonStringify\<close> is
    \<^verbatim>\<open>JSON.stringify\<close> where the service applies it to a string or to an object of strings;
  \<^item> \<open>stringifyFailure\<close> is the \<^verbatim>\<open>TypeError\<close> that \<^verbatim>\<open>JSON.stringify\<close> throws on a value that
    is not \<open>serialisable\<close>;
  \<^item> \<open>toNumber\<close> is \<^verbatim>\<open>Number(x)\<close> on strings, BigInts, arrays and objects (it throws on an
    object that has no callable \<^verbatim>\<open>valueOf\<close> or \<^verbatim>\<open>toString\<close>);
  \<^item> \<open>toStr\<close> is the string conversion of a value that is not a string, as the \<^verbatim>\<open>Error\<close>
    constructor applies it to its message (it throws on such an object too);
  \<^item> \<open>numToString\<close> is the string conversion of a number in a template literal;
  \<^item> \<open>parseInt\<close> is \<^verbatim>\<open>parseInt\<close>;
  \<^item> \<open>propertyReadError v k\<close> is the \<^verbatim>\<open>TypeError\<close> thrown by reading the property \<open>k\<close> of
    \<open>v\<close> when \<open>v\<close> is \<^verbatim>\<open>null\<close> or \<^verbatim>\<open>undefined\<close>;
  \<^item> \<open>dayOverflow\<close> tells whether \<^verbatim>\<open>new Date('YYYY-MM-DD')\<close> accepts a day of the month
    from 29 to 31 that the month does not have and rolls it over into the next month
    (V8 does, SpiderMonkey gives an invalid date);
  \<^item> \<open>IS_PRODUCTION\<close> is \<^verbatim>\<open>import.meta.env.PROD\<close>.
\<close>

record runtime =
  purify :: "string \<Rightarrow> string"
  jsonParse :: "string \<Rightarrow> jsvalue option"
  jsonStringify :: "jsvalue \<Rightarrow> string"
  stringifyFailure :: exn
  toNumber :: "jsvalue \<Rightarrow> exn + jsnum"
  toStr :: "jsvalue \<Rightarrow> exn + string"
  numToString :: "jsnum \<Rightarrow> string"
  parseInt :: "string \<Rightarrow> jsnum"
  propertyReadError :: "jsvalue \<Rightarrow> string \<Rightarrow> exn"
  dayOverflow :: bool
  IS_PRODUCTION :: bool

text \<open>
  \<^verbatim>\<open>String.prototype.trim\<close>: white space and line terminators are removed at both ends
  (among the code points below 256: TAB, LF, VT, FF, CR, SP and NBSP).
\<close>

definition isWhiteSpace :: "char \<Rightarrow> bool" where
  "isWhiteSpace c = (of_char c \<in> {9, 10, 11, 12, 13, 32, 160 :: nat})"

definition trim :: "string \<Rightarrow> string" where
  "trim s = rev (dropWhile isWhiteSpace (rev (dropWhile isWhiteSpace s)))"

text \<open>\<^verbatim>\<open>s.includes(sub)\<close>\<close>

fun str_includes :: "string \<Rightarrow> string \<Rightarrow> bool" where
  "str_includes [] sub = (sub = [])"
| "str_includes (c # cs) sub = (take (length sub) (c # cs) = sub \<or> str_includes cs sub)"

text \<open>Decimal digits of a natural number, as \<^verbatim>\<open>`${response.status}`\<close> prints an HTTP status.\<close>

fun showNat :: "nat \<Rightarrow> string" where
  "showNat n = (if n < 10 then [char_of (48 + n)] else showNat (n div 10) @ [char_of (48 + n mod 10)])"

section \<open>The service module\<close>

definition MAX_RETRY_ATTEMPTS :: nat where
  "MAX_RETRY_ATTEMPTS = 3"

definition RETRY_DELAY :: nat where
  "RETRY_DELAY = 1000"

definition HEALTH :: string where "HEALTH = ''/api/health''"
definition SCRAPE :: string where "SCRAPE = ''/api/scrape''"
definition STATUS :: string where "STATUS = ''/api/status''"
definition RESULTS :: string where "RESULTS = ''/api/results''"
definition STOP :: string where "STOP = ''/api/stop''"

subsection \<open>sanitizeInput, validateResponse and safeLog\<close>

text \<open>
  \<^verbatim>\<open>sanitized[key] = v\<close> on the fresh object \<^verbatim>\<open>sanitized\<close>: every key but \<^verbatim>\<open>__proto__\<close> becomes
  an own property; the key \<^verbatim>\<open>__proto__\<close> reaches the setter of \<^verbatim>\<open>Object.prototype\<close>, which
  makes \<open>v\<close> the prototype when \<open>v\<close> is an object, an array or \<^verbatim>\<open>null\<close> and does nothing
  otherwise. No own property \<^verbatim>\<open>__proto__\<close> is created.
\<close>

definition installedPrototype :: "(string \<times> jsvalue) list \<Rightarrow> jsvalue option" where
  "installedPrototype entries =
     (case map_of entries ''__proto__'' of
        None \<Rightarrow> None
      | Some v \<Rightarrow> if typeof_object v then Some v else None)"

fun sanitizeInput :: "runtime \<Rightarrow> jsvalue \<Rightarrow> jsvalue" where
  "sanitizeInput rt (JStr s) = JStr (purify rt (trim s))"
| "sanitizeInput rt (JArr xs) = JArr (map (sanitizeInput rt) xs)"
| "sanitizeInput rt (JObj kvs proto) =
     JObj (filter (\<lambda>kv. fst kv \<noteq> ''__proto__'')
             (map (\<lambda>kv. (fst kv, sanitizeInput rt (snd kv))) kvs))
          (installedPrototype (map (\<lambda>kv. (fst kv, sanitizeInput rt (snd kv))) kvs))"
| "sanitizeInput rt v = v"

text \<open>
  \<^verbatim>\<open>validateResponse(response, expectedKeys)\<close> returns \<^verbatim>\<open>true\<close> or throws; the keys are
  checked in order and the first missing one is reported.
\<close>

fun missingKey :: "jsvalue \<Rightarrow> string list \<Rightarrow> string option" where
  "missingKey response [] = None"
| "missingKey response (k # ks) = (if \<not> has_prop k response then Some k else missingKey response ks)"

definition validateResponse :: "jsvalue \<Rightarrow> string list \<Rightarrow> exn + bool" where
  "validateResponse response expectedKeys =
     (if \<not> truthy response \<or> \<not> typeof_object response
      then Inl (ApiError ''Invalid response format'' 0 JNull)
      else case missingKey response expectedKeys of
             Some k \<Rightarrow> Inl (ApiError (''Missing required field: '' @ k) 0 JNull)
           | None \<Rightarrow> Inr True)"

text \<open>
  \<^verbatim>\<open>safeLog(level, message, data)\<close> writes to the console and returns nothing; what matters
  here is whether it throws. In production it returns at once. Otherwise it computes
  \<^verbatim>\<open>data ? (typeof data === 'object' ? JSON.stringify(data, null, 2) : data) : ''\<close>, which
  throws when \<open>data\<close> is an object or array that is not \<open>serialisable\<close>. The result is the
  error thrown, if any.
\<close>

definition safeLog :: "runtime \<Rightarrow> jsvalue \<Rightarrow> exn option" where
  "safeLog rt logged =
     (if IS_PRODUCTION rt then None
      else if truthy logged \<and> typeof_object logged \<and> \<not> serialisable logged
      then Some (stringifyFailure rt)
      else None)"

text \<open>\<^verbatim>\<open>error.status\<close> as a value in a logged object.\<close>

definition statusValue :: "exn \<Rightarrow> jsvalue" where
  "statusValue e = (case exn_status e of None \<Rightarrow> JUndefined | Some s \<Rightarrow> JNum (Fin (of_int s)))"

subsection \<open>The registry of in-flight requests\<close>

text \<open>
  \<^verbatim>\<open>options\<close> as the service passes it: \<^verbatim>\<open>options.method\<close> (the field \<open>httpMethod\<close>) and
  \<^verbatim>\<open>options.body\<close> (a string), each possibly absent; no caller sets \<^verbatim>\<open>headers\<close>.
\<close>

record options =
  httpMethod :: "string option"
  body :: "string option"

text \<open>
  What the network does to one dispatched request. \<^verbatim>\<open>fetch\<close> settles: it rejects with an
  error (its name and message; an \<^verbatim>\<open>AbortError\<close> when the request timer fires first), or
  resolves to a response once the headers have arrived. The body is read afterwards with
  \<^verbatim>\<open>response.json()\<close> or \<^verbatim>\<open>response.text()\<close>, when the timer has been cleared
  (\<^verbatim>\<open>clearTimeout(timeoutId)\<close> follows \<^verbatim>\<open>await fetch\<close>): a read gives a value, rejects, or
  never settles when the body stalls.
\<close>

record response =
  resp_status :: nat
  resp_statusText :: string
  resp_retryAfter :: "string option"
  resp_contentType :: "string option"
  resp_json :: "(exn + jsvalue) awaited"
  resp_text :: "(exn + string) awaited"

datatype fetch_result =
    FetchRejects string string
  | FetchResolves response

text \<open>
  The observable effects, in order: \<open>Fetch p m u b\<close> is the call of \<^verbatim>\<open>fetch\<close> made for promise
  \<open>p\<close> with method \<open>m\<close>, path \<open>u\<close> and body \<open>b\<close>; \<open>Delay ms\<close> is \<^verbatim>\<open>await delay(ms)\<close>;
  \<open>SetTimeout ms\<close> is \<^verbatim>\<open>setTimeout(poll, ms)\<close>; \<open>Progress v\<close> is a call of \<^verbatim>\<open>onProgress(v)\<close>.
  The console output of \<^verbatim>\<open>safeLog\<close> is not recorded.
\<close>

datatype event =
    Fetch nat "string option" string "string option"
  | Delay nat
  | SetTimeout int
  | Progress jsvalue

text \<open>
  The module state: the map \<^verbatim>\<open>activeRequests\<close> from request key to pending promise; for
  each pending promise the \<^verbatim>\<open>requestKey\<close> its closure holds; a counter naming promises;
  and the effects so far.
\<close>

record client =
  activeRequests :: "string \<rightharpoonup> nat"
  requestKeys :: "nat \<rightharpoonup> string"
  nextPromise :: nat
  trace :: "event list"

definition newClient :: client where
  "newClient = \<lparr>activeRequests = Map.empty, requestKeys = Map.empty, nextPromise = 0, trace = []\<rparr>"

text \<open>\<^verbatim>\<open>`${options.method || 'GET'}:${url}:${JSON.stringify(options.body || {})}`\<close>\<close>

definition getRequestKey :: "runtime \<Rightarrow> string \<Rightarrow> options \<Rightarrow> string" where
  "getRequestKey rt url opts =
     (case httpMethod opts of None \<Rightarrow> ''GET'' | Some m \<Rightarrow> if m = [] then ''GET'' else m)
     @ '':'' @ url @ '':'' @
     jsonStringify rt (case body opts of None \<Rightarrow> JObj [] None
                       | Some b \<Rightarrow> if b = [] then JObj [] None else JStr b)"

text \<open>
  The body is sanitised before it is sent, and \<^verbatim>\<open>options.body\<close> is overwritten with the
  result (the caller's object is mutated). When \<^verbatim>\<open>JSON.parse\<close> or \<^verbatim>\<open>JSON.stringify\<close> throws,
  the body is sanitised as a string.
\<close>

definition sanitizeBody :: "runtime \<Rightarrow> options \<Rightarrow> options" where
  "sanitizeBody rt opts =
     (case body opts of
        None \<Rightarrow> opts
      | Some b \<Rightarrow>
          if b = [] then opts
          else (case jsonParse rt b of
                  Some bodyData \<Rightarrow>
                    if serialisable (sanitizeInput rt bodyData)
                    then opts\<lparr>body := Some (jsonStringify rt (sanitizeInput rt bodyData))\<rparr>
                    else opts\<lparr>body := Some (purify rt (trim b))\<rparr>
                | None \<Rightarrow> opts\<lparr>body := Some (purify rt (trim b))\<rparr>))"

text \<open>
  \<^verbatim>\<open>makeRequest\<close> up to the point where it returns its promise: the URL guard, the lookup
  in \<^verbatim>\<open>activeRequests\<close>, and otherwise the start of the request (the asynchronous body runs
  as far as the call of \<^verbatim>\<open>fetch\<close>) and \<^verbatim>\<open>activeRequests.set\<close>. The result is the rejection
  of the guard or the promise handed to the caller, with the new state and the options
  as the call leaves them.
\<close>

definition makeRequest :: "runtime \<Rightarrow> client \<Rightarrow> string \<Rightarrow> options \<Rightarrow> (exn + nat) \<times> client \<times> options" where
  "makeRequest rt st url opts =
     (if url = [] then (Inl (ApiError ''Invalid URL provided'' 400 JNull), st, opts)
      else
        let requestKey = getRequestKey rt url opts in
        case activeRequests st requestKey of
          Some p \<Rightarrow> (Inr p, st, opts)
        | None \<Rightarrow>
            let p = nextPromise st;
                opts' = sanitizeBody rt opts
            in (Inr p,
                st\<lparr>activeRequests := (activeRequests st)(requestKey \<mapsto> p),
                   requestKeys := (requestKeys st)(p \<mapsto> requestKey),
                   nextPromise := Suc p,
                   trace := trace st @ [Fetch p (httpMethod opts') url (body opts')]\<rparr>,
                opts'))"

text \<open>
  The \<^verbatim>\<open>finally\<close> block of the request, run when promise \<open>p\<close> settles:
  \<^verbatim>\<open>activeRequests.delete(requestKey)\<close>. A promise settles once.
\<close>

definition settle :: "client \<Rightarrow> nat \<Rightarrow> client" where
  "settle st p =
     (case requestKeys st p of
        None \<Rightarrow> st
      | Some requestKey \<Rightarrow>
          st\<lparr>activeRequests := (activeRequests st)(requestKey := None),
             requestKeys := (requestKeys st)(p := None)\<rparr>)"

subsection \<open>What a request settles with\<close>

definition jsnum_times :: "jsnum \<Rightarrow> rat \<Rightarrow> jsnum" where
  \<comment> \<open>multiplication or division by a positive constant\<close>
  "jsnum_times n c = (case n of Fin r \<Rightarrow> Fin (r * c) | _ \<Rightarrow> n)"

definition Math_ceil :: "jsnum \<Rightarrow> jsnum" where
  "Math_ceil n = (case n of Fin r \<Rightarrow> Fin (of_int \<lceil>r\<rceil>) | _ \<Rightarrow> n)"

text \<open>
  \<^verbatim>\<open>new ApiError(message, status, data)\<close>: the \<^verbatim>\<open>Error\<close> constructor converts the message to a
  string, which throws when the message is an object without a callable \<^verbatim>\<open>toString\<close> or
  \<^verbatim>\<open>valueOf\<close>. The result is the error that \<^verbatim>\<open>throw new ApiError(...)\<close> throws: the
  \<^verbatim>\<open>ApiError\<close>, or the \<^verbatim>\<open>TypeError\<close> of the conversion. The parameter \<^verbatim>\<open>data = null\<close> takes its
  default when \<^verbatim>\<open>undefined\<close> is passed.
\<close>

definition messageString :: "runtime \<Rightarrow> jsvalue \<Rightarrow> exn + string" where
  "messageString rt v = (case v of JStr s \<Rightarrow> Inr s | _ \<Rightarrow> toStr rt v)"

definition throwApiError :: "runtime \<Rightarrow> jsvalue \<Rightarrow> int \<Rightarrow> jsvalue \<Rightarrow> exn" where
  "throwApiError rt msg code d =
     (case messageString rt msg of
        Inl e \<Rightarrow> e
      | Inr m \<Rightarrow> ApiError m code (if d = JUndefined then JNull else d))"

text \<open>The \<^verbatim>\<open>catch\<close> block of the request: every error leaves it as an \<^verbatim>\<open>ApiError\<close>.\<close>

definition catchRequest :: "runtime \<Rightarrow> exn \<Rightarrow> exn" where
  "catchRequest rt error =
     (if exn_name error = ''AbortError''
      then ApiError ''Request timeout - server is taking too long to respond'' 408 JNull
      else if instanceof_ApiError error then error
      else if exn_name error = ''TypeError'' \<and> str_includes (exn_message error) ''fetch''
      then ApiError ''Unable to connect to server. Please check if the server is running.'' 0 JNull
      else ApiError (if purify rt (trim (exn_message error)) = []
                     then ''An unexpected error occurred''
                     else purify rt (trim (exn_message error))) 0 JNull)"

text \<open>
  The branch for a response that is not \<^verbatim>\<open>ok\<close>: the error thrown, once
  \<^verbatim>\<open>response.json()\<close> has settled.
\<close>

definition httpError :: "runtime \<Rightarrow> response \<Rightarrow> exn awaited" where
  "httpError rt r =
     (let errorMessage = JStr (''HTTP '' @ showNat (resp_status r) @ '': '' @ resp_statusText r) in
      case resp_json r of
        Never \<Rightarrow> Never
      | Got (Inl e) \<Rightarrow> Got (throwApiError rt errorMessage (int (resp_status r)) JNull)
      | Got (Inr errorData) \<Rightarrow>
          if nullish errorData
          then Got (throwApiError rt errorMessage (int (resp_status r)) errorData)
          else Got (throwApiError rt
                      (sanitizeInput rt
                         (js_or (get_prop errorData ''error'')
                            (js_or (get_prop errorData ''message'') errorMessage)))
                      (int (resp_status r))
                      (sanitizeInput rt errorData)))"

text \<open>
  The asynchronous body of \<^verbatim>\<open>makeRequest\<close> after \<^verbatim>\<open>fetch\<close> has settled with \<open>fr\<close>: what the
  promise settles with, or \<open>Never\<close> when a body read stalls (the \<^verbatim>\<open>finally\<close> block is then
  never run).
\<close>

definition requestPromise :: "runtime \<Rightarrow> fetch_result \<Rightarrow> (exn + jsvalue) awaited" where
  "requestPromise rt fr =
     (case fr of
        FetchRejects name msg \<Rightarrow> Got (Inl (catchRequest rt (JsError name msg)))
      | FetchResolves r \<Rightarrow>
          if resp_status r = 429 then
            let retryDelay =
                  (case resp_retryAfter r of
                     None \<Rightarrow> Fin 5000
                   | Some retryAfter \<Rightarrow>
                       if retryAfter = [] then Fin 5000
                       else jsnum_times (parseInt rt retryAfter) 1000)
            in Got (Inl (catchRequest rt
                     (ApiError (''Rate limited. Please wait ''
                                @ numToString rt (Math_ceil (jsnum_times retryDelay (1 / 1000)))
                                @ '' seconds.'') 429 JNull)))
          else if \<not> (200 \<le> resp_status r \<and> resp_status r \<le> 299) then
            (case httpError rt r of
               Never \<Rightarrow> Never
             | Got e \<Rightarrow> Got (Inl (catchRequest rt e)))
          else if (case resp_contentType r of
                     None \<Rightarrow> False
                   | Some contentType \<Rightarrow> str_includes contentType ''application/json'')
          then (case resp_json r of
                  Never \<Rightarrow> Never
                | Got (Inl e) \<Rightarrow> Got (Inl (catchRequest rt e))
                | Got (Inr responseData) \<Rightarrow> Got (Inr (sanitizeInput rt responseData)))
          else (case resp_text r of
                  Never \<Rightarrow> Never
                | Got (Inl e) \<Rightarrow> Got (Inl (catchRequest rt e))
                | Got (Inr responseData) \<Rightarrow> Got (Inr (sanitizeInput rt (JStr responseData)))))"

text \<open>
  \<^verbatim>\<open>await makeRequest(url, options)\<close>: the caller obtains the promise and waits for it.
  \<open>net p\<close> is what the network does to the request of promise \<open>p\<close>. When the promise never
  settles the caller waits for ever and the key stays in \<^verbatim>\<open>activeRequests\<close>.
\<close>

definition awaitRequest ::
  "runtime \<Rightarrow> (nat \<Rightarrow> fetch_result) \<Rightarrow> client \<Rightarrow> string \<Rightarrow> options
   \<Rightarrow> (exn + jsvalue) awaited \<times> client \<times> options" where
  "awaitRequest rt net st url opts =
     (case makeRequest rt st url opts of
        (Inl e, st', opts') \<Rightarrow> (Got (Inl e), st', opts')
      | (Inr p, st', opts') \<Rightarrow>
          (case requestPromise rt (net p) of
             Never \<Rightarrow> (Never, st', opts')
           | Got outcome \<Rightarrow> (Got outcome, settle st' p, opts')))"

subsection \<open>makeRequestWithRetry\<close>

text \<open>\<^verbatim>\<open>error.status === 0 || error.status >= 500 || error.name === 'AbortError'\<close>\<close>

definition shouldRetry :: "exn \<Rightarrow> bool" where
  "shouldRetry error =
     (exn_status error = Some 0
      \<or> (case exn_status error of None \<Rightarrow> False | Some s \<Rightarrow> s \<ge> 500)
      \<or> exn_name error = ''AbortError'')"

text \<open>\<^verbatim>\<open>RETRY_DELAY * Math.pow(2, attempt - 1)\<close>; \<open>attempt\<close> starts at 1.\<close>

definition retryDelay :: "nat \<Rightarrow> nat" where
  "retryDelay attempt = RETRY_DELAY * 2 ^ (attempt - 1)"

text \<open>
  The call of \<^verbatim>\<open>safeLog\<close> before the delay passes no data and does not throw.
\<close>

function makeRequestWithRetry ::
  "runtime \<Rightarrow> (nat \<Rightarrow> fetch_result) \<Rightarrow> client \<Rightarrow> string \<Rightarrow> options \<Rightarrow> nat
   \<Rightarrow> (exn + jsvalue) awaited \<times> client" where
  "makeRequestWithRetry rt net st url opts attempt =
     (case awaitRequest rt net st url opts of
        (Never, st', opts') \<Rightarrow> (Never, st')
      | (Got (Inr v), st', opts') \<Rightarrow> (Got (Inr v), st')
      | (Got (Inl error), st', opts') \<Rightarrow>
          if attempt \<ge> MAX_RETRY_ATTEMPTS then (Got (Inl error), st')
          else if \<not> shouldRetry error then (Got (Inl error), st')
          else makeRequestWithRetry rt net
                 (st'\<lparr>trace := trace st' @ [Delay (retryDelay attempt)]\<rparr>) url opts' (Suc attempt))"
  by pat_completeness auto
termination
  by (relation "measure (\<lambda>(rt, net, st, url, opts, attempt). MAX_RETRY_ATTEMPTS - attempt)") auto

declare makeRequestWithRetry.simps [simp del]

subsection \<open>Results of the operations\<close>

text \<open>
  The object an operation resolves with. A field the object does not have is
  \<^verbatim>\<open>undefined\<close> (\<open>JUndefined\<close>, or \<open>None\<close> for the typed fields). No operation returns a
  field \<^verbatim>\<open>jobId\<close>.
\<close>

record result =
  success :: bool
  data :: jsvalue
  message :: jsvalue
  error :: jsvalue
  status :: "int option"
  isRunning :: "bool option"
  progress :: "jsnum option"

definition emptyResult :: result where
  "emptyResult = \<lparr>success = False, data = JUndefined, message = JUndefined, error = JUndefined,
                   status = None, isRunning = None, progress = None\<rparr>"


text \<open>\<^verbatim>\<open>error.status || 0\<close>\<close>

definition statusOrZero :: "exn \<Rightarrow> int" where
  "statusOrZero e = (case exn_status e of None \<Rightarrow> 0 | Some s \<Rightarrow> if s = 0 then 0 else s)"

text \<open>\<^verbatim>\<open>{ success: false, error: error.message, status: error.status || 0 }\<close>\<close>

definition failure :: "exn \<Rightarrow> result" where
  "failure e = emptyResult\<lparr>success := False, error := JStr (exn_message e), status := Some (statusOrZero e)\<rparr>"

text \<open>
  An operation is an \<^verbatim>\<open>async\<close> function: its caller gets \<open>Got (Inr r)\<close> when it resolves with
  \<open>r\<close>, \<open>Got (Inl e)\<close> when it rejects with \<open>e\<close>, and \<open>Never\<close> when it stays pending. The same
  type describes a \<^verbatim>\<open>try\<close> block: \<open>Got (Inl e)\<close> when it throws \<open>e\<close>.

  \<open>catching rt logged handler body\<close> is
  \<^verbatim>\<open>try { body } catch (error) { safeLog('error', ..., logged(error)); return handler(error) }\<close>:
  an error thrown by \<^verbatim>\<open>safeLog\<close> inside the \<^verbatim>\<open>catch\<close> block leaves the function.
\<close>

definition catching ::
  "runtime \<Rightarrow> (exn \<Rightarrow> jsvalue) \<Rightarrow> (exn \<Rightarrow> result) \<Rightarrow> (exn + result) awaited \<times> client
   \<Rightarrow> (exn + result) awaited \<times> client" where
  "catching rt logged handler tried =
     (case tried of
        (Never, st') \<Rightarrow> (Never, st')
      | (Got (Inr r), st') \<Rightarrow> (Got (Inr r), st')
      | (Got (Inl err), st') \<Rightarrow>
          (case safeLog rt (logged err) of
             Some thrown \<Rightarrow> (Got (Inl thrown), st')
           | None \<Rightarrow> (Got (Inr (handler err)), st')))"

subsection \<open>checkHealth\<close>

definition checkHealthTry ::
  "runtime \<Rightarrow> (nat \<Rightarrow> fetch_result) \<Rightarrow> client \<Rightarrow> (exn + result) awaited \<times> client" where
  "checkHealthTry rt net st =
     (case makeRequestWithRetry rt net st HEALTH \<lparr>httpMethod = Some ''GET'', body = None\<rparr> 1 of
        (Never, st') \<Rightarrow> (Never, st')
      | (Got (Inl e), st') \<Rightarrow> (Got (Inl e), st')
      | (Got (Inr response), st') \<Rightarrow>
          (case validateResponse response [''status''] of
             Inl e \<Rightarrow> (Got (Inl e), st')
           | Inr ok \<Rightarrow>
               (case safeLog rt (JObj [(''status'', get_prop response ''status''),
                                       (''timestamp'', get_prop response ''timestamp'')] None) of
                  Some e \<Rightarrow> (Got (Inl e), st')
                | None \<Rightarrow>
                    (Got (Inr (emptyResult\<lparr>success := True, data := response,
                                 message := JStr ''Server is healthy''\<rparr>)), st'))))"

definition checkHealth ::
  "runtime \<Rightarrow> (nat \<Rightarrow> fetch_result) \<Rightarrow> client \<Rightarrow> (exn + result) awaited \<times> client" where
  "checkHealth rt net st =
     catching rt
       (\<lambda>err. JObj [(''message'', JStr (exn_message err)), (''status'', statusValue err)] None)
       failure
       (checkHealthTry rt net st)"

subsection \<open>startScraping\<close>

definition isDigit :: "char \<Rightarrow> bool" where
  "isDigit c = (48 \<le> (of_char c :: nat) \<and> (of_char c :: nat) \<le> 57)"

text \<open>\<^verbatim>\<open>/^\d{4}-\d{2}-\d{2}$/.test(s)\<close>\<close>

fun matchesDatePattern :: "string \<Rightarrow> bool" where
  "matchesDatePattern [y1, y2, y3, y4, h1, m1, m2, h2, d1, d2] =
     (isDigit y1 \<and> isDigit y2 \<and> isDigit y3 \<and> isDigit y4 \<and> h1 = CHR ''-'' \<and>
      isDigit m1 \<and> isDigit m2 \<and> h2 = CHR ''-'' \<and> isDigit d1 \<and> isDigit d2)"
| "matchesDatePattern s = False"

text \<open>
  \<^verbatim>\<open>new Date(s).getTime()\<close> for a string of that shape: the date-only ISO form is midnight
  UTC of the day, in milliseconds since 1970-01-01; \<open>None\<close> is the invalid date (\<^verbatim>\<open>NaN\<close>).
  The day number follows ECMAScript's \<^verbatim>\<open>DayFromYear\<close> and \<^verbatim>\<open>MakeDay\<close>.
\<close>

definition digitsValue :: "string \<Rightarrow> int" where
  "digitsValue s = foldl (\<lambda>acc c. 10 * acc + (int (of_char c) - 48)) 0 s"

definition DayFromYear :: "int \<Rightarrow> int" where
  "DayFromYear y = 365 * (y - 1970) + (y - 1969) div 4 - (y - 1901) div 100 + (y - 1601) div 400"

definition InLeapYear :: "int \<Rightarrow> bool" where
  "InLeapYear y = ((y mod 4 = 0 \<and> y mod 100 \<noteq> 0) \<or> y mod 400 = 0)"

definition daysBeforeMonth :: "int \<Rightarrow> int \<Rightarrow> int" where
  "daysBeforeMonth y m =
     [0, 31, 59, 90, 120, 151, 181, 212, 243, 273, 304, 334] ! nat (m - 1)
     + (if InLeapYear y \<and> m > 2 then 1 else 0)"

definition daysInMonth :: "int \<Rightarrow> int \<Rightarrow> int" where
  "daysInMonth y m =
     (if m = 2 then (if InLeapYear y then 29 else 28)
      else if m = 4 \<or> m = 6 \<or> m = 9 \<or> m = 11 then 30 else 31)"

definition msPerDay :: int where
  "msPerDay = 86400000"

definition utcMidnight :: "int \<Rightarrow> int \<Rightarrow> int \<Rightarrow> int" where
  "utcMidnight y m d = (DayFromYear y + daysBeforeMonth y m + d - 1) * msPerDay"

definition parseDate :: "runtime \<Rightarrow> string \<Rightarrow> int option" where
  "parseDate rt s =
     (let y = digitsValue (take 4 s);
          m = digitsValue (take 2 (drop 5 s));
          d = digitsValue (take 2 (drop 8 s))
      in if m < 1 \<or> 12 < m \<or> d < 1 \<or> 31 < d then None
         else if daysInMonth y m < d \<and> \<not> dayOverflow rt then None
         else Some (utcMidnight y m d))"

text \<open>\<^verbatim>\<open>new Date('2010-01-01')\<close>\<close>

definition minDate :: int where
  "minDate = utcMidnight 2010 1 1"

text \<open>
  The request body \<^verbatim>\<open>JSON.stringify({ date: sanitizedDate })\<close> that \<^verbatim>\<open>startScraping\<close> passes to
  \<^verbatim>\<open>makeRequestWithRetry\<close>.
\<close>

definition scrapeOptions :: "runtime \<Rightarrow> string \<Rightarrow> options" where
  "scrapeOptions rt sanitizedDate =
     \<lparr>httpMethod = Some ''POST'',
      body = Some (jsonStringify rt (JObj [(''date'', JStr sanitizedDate)] None))\<rparr>"

text \<open>
  \<open>today\<close> is \<^verbatim>\<open>new Date()\<close>, the time of the call in milliseconds since 1970-01-01.
\<close>

definition startScrapingTry ::
  "runtime \<Rightarrow> int \<Rightarrow> (nat \<Rightarrow> fetch_result) \<Rightarrow> client \<Rightarrow> jsvalue
   \<Rightarrow> (exn + result) awaited \<times> client" where
  "startScrapingTry rt today net st date =
     (case sanitizeInput rt date of
        JStr sanitizedDate \<Rightarrow>
          if sanitizedDate = [] then (Got (Inl (ApiError ''Date is required'' 400 JNull)), st)
          else if \<not> matchesDatePattern sanitizedDate
          then (Got (Inl (ApiError ''Invalid date format. Please use YYYY-MM-DD format.'' 400 JNull)), st)
          else (case parseDate rt sanitizedDate of
                  None \<Rightarrow> (Got (Inl (ApiError ''Invalid date provided'' 400 JNull)), st)
                | Some dateObj \<Rightarrow>
                    if dateObj > today
                    then (Got (Inl (ApiError ''Date cannot be in the future'' 400 JNull)), st)
                    else if dateObj < minDate
                    then (Got (Inl (ApiError ''Date cannot be before 2010'' 400 JNull)), st)
                    else (case makeRequestWithRetry rt net st SCRAPE
                                 (scrapeOptions rt sanitizedDate) 1 of
                            (Never, st') \<Rightarrow> (Never, st')
                          | (Got (Inl e), st') \<Rightarrow> (Got (Inl e), st')
                          | (Got (Inr response), st') \<Rightarrow>
                              (case validateResponse response [''message''] of
                                 Inl e \<Rightarrow> (Got (Inl e), st')
                               | Inr ok \<Rightarrow>
                                   (case safeLog rt
                                           (JObj [(''date'', JStr sanitizedDate),
                                                  (''message'', get_prop response ''message'')] None) of
                                      Some e \<Rightarrow> (Got (Inl e), st')
                                    | None \<Rightarrow>
                                        (Got (Inr (emptyResult\<lparr>success := True, data := response,
                                                message := JStr ''Scraping started successfully''\<rparr>)),
                                         st')))))
      | other \<Rightarrow> (Got (Inl (ApiError ''Date is required'' 400 JNull)), st))"

text \<open>The \<^verbatim>\<open>catch\<close> block logs the caller's \<open>date\<close> as it was passed.\<close>

definition startScraping ::
  "runtime \<Rightarrow> int \<Rightarrow> (nat \<Rightarrow> fetch_result) \<Rightarrow> client \<Rightarrow> jsvalue
   \<Rightarrow> (exn + result) awaited \<times> client" where
  "startScraping rt today net st date =
     catching rt
       (\<lambda>err. JObj [(''date'', date), (''error'', JStr (exn_message err)),
                       (''status'', statusValue err)] None)
       failure
       (startScrapingTry rt today net st date)"

subsection \<open>getScrapingStatus\<close>

text \<open>\<^verbatim>\<open>Number(x)\<close>\<close>

fun Number :: "runtime \<Rightarrow> jsvalue \<Rightarrow> exn + jsnum" where
  "Number rt JUndefined = Inr NaN"
| "Number rt JNull = Inr (Fin 0)"
| "Number rt (JBool b) = Inr (Fin (if b then 1 else 0))"
| "Number rt (JNum n) = Inr n"
| "Number rt v = toNumber rt v"

text \<open>\<^verbatim>\<open>n || 0\<close> on numbers: \<^verbatim>\<open>NaN\<close> and zero are falsy.\<close>

definition orZero :: "jsnum \<Rightarrow> jsnum" where
  "orZero n = (if n = NaN \<or> n = Fin 0 then Fin 0 else n)"

fun jsnum_le :: "jsnum \<Rightarrow> jsnum \<Rightarrow> bool" where
  "jsnum_le NaN b = False"
| "jsnum_le a NaN = False"
| "jsnum_le NegInf b = True"
| "jsnum_le a PosInf = True"
| "jsnum_le (Fin a) (Fin b) = (a \<le> b)"
| "jsnum_le a b = False"

definition Math_min :: "jsnum \<Rightarrow> jsnum \<Rightarrow> jsnum" where
  "Math_min a b = (if a = NaN \<or> b = NaN then NaN else if jsnum_le a b then a else b)"

definition Math_max :: "jsnum \<Rightarrow> jsnum \<Rightarrow> jsnum" where
  "Math_max a b = (if a = NaN \<or> b = NaN then NaN else if jsnum_le a b then b else a)"

definition getScrapingStatusTry ::
  "runtime \<Rightarrow> (nat \<Rightarrow> fetch_result) \<Rightarrow> client \<Rightarrow> (exn + result) awaited \<times> client" where
  "getScrapingStatusTry rt net st =
     (case awaitRequest rt net st STATUS \<lparr>httpMethod = Some ''GET'', body = None\<rparr> of
        (Never, st', opts') \<Rightarrow> (Never, st')
      | (Got (Inl e), st', opts') \<Rightarrow> (Got (Inl e), st')
      | (Got (Inr response), st', opts') \<Rightarrow>
          (case validateResponse response [''is_running''] of
             Inl e \<Rightarrow> (Got (Inl e), st')
           | Inr ok \<Rightarrow>
               (case Number rt (get_prop response ''progress'') of
                  Inl e \<Rightarrow> (Got (Inl e), st')
                | Inr n \<Rightarrow>
                    (Got (Inr (emptyResult\<lparr>
                            success := True,
                            data := response,
                            isRunning := Some (truthy (get_prop response ''is_running'')),
                            progress := Some (Math_max (Fin 0) (Math_min (Fin 100) (orZero n))),
                            message := js_or (sanitizeInput rt (get_prop response ''message''))
                                             (JStr ''Status retrieved successfully'')\<rparr>)), st'))))"

definition getScrapingStatus ::
  "runtime \<Rightarrow> (nat \<Rightarrow> fetch_result) \<Rightarrow> client \<Rightarrow> (exn + result) awaited \<times> client" where
  "getScrapingStatus rt net st =
     catching rt
       (\<lambda>err. JObj [(''error'', JStr (exn_message err)), (''status'', statusValue err)] None)
       (\<lambda>err. (failure err)\<lparr>isRunning := Some False, progress := Some (Fin 0)\<rparr>)
       (getScrapingStatusTry rt net st)"

subsection \<open>getResults and stopScraping\<close>

definition getResultsTry ::
  "runtime \<Rightarrow> (nat \<Rightarrow> fetch_result) \<Rightarrow> client \<Rightarrow> (exn + result) awaited \<times> client" where
  "getResultsTry rt net st =
     (case awaitRequest rt net st RESULTS \<lparr>httpMethod = Some ''GET'', body = None\<rparr> of
        (Never, st', opts') \<Rightarrow> (Never, st')
      | (Got (Inl e), st', opts') \<Rightarrow> (Got (Inl e), st')
      | (Got (Inr response), st', opts') \<Rightarrow>
          if \<not> (truthy response \<and> typeof_object response
                \<and> get_prop response ''success'' = JBool True
                \<and> is_array (get_prop response ''orders''))
          then (Got (Inl (ApiError ''Results not ready'' 202 JNull)), st')
          else (case safeLog rt
                       (JObj [(''totalAwards'', get_prop response ''total_awards''),
                              (''totalValue'', get_prop response ''total_value_crores''),
                              (''date'', get_prop response ''date'')] None) of
                  Some e \<Rightarrow> (Got (Inl e), st')
                | None \<Rightarrow>
                    (Got (Inr (emptyResult\<lparr>success := True, data := response,
                                 message := JStr ''Results retrieved successfully''\<rparr>)), st')))"

definition getResults ::
  "runtime \<Rightarrow> (nat \<Rightarrow> fetch_result) \<Rightarrow> client \<Rightarrow> (exn + result) awaited \<times> client" where
  "getResults rt net st =
     catching rt
       (\<lambda>err. JObj [(''error'', JStr (exn_message err)), (''status'', statusValue err)] None)
       failure
       (getResultsTry rt net st)"

definition stopScrapingTry ::
  "runtime \<Rightarrow> (nat \<Rightarrow> fetch_result) \<Rightarrow> client \<Rightarrow> (exn + result) awaited \<times> client" where
  "stopScrapingTry rt net st =
     (case awaitRequest rt net st STOP \<lparr>httpMethod = Some ''POST'', body = None\<rparr> of
        (Never, st', opts') \<Rightarrow> (Never, st')
      | (Got (Inl e), st', opts') \<Rightarrow> (Got (Inl e), st')
      | (Got (Inr response), st', opts') \<Rightarrow>
          (case safeLog rt response of
             Some e \<Rightarrow> (Got (Inl e), st')
           | None \<Rightarrow>
               (Got (Inr (emptyResult\<lparr>success := True, data := response,
                            message := JStr ''Scraping stopped successfully''\<rparr>)), st')))"

definition stopScraping ::
  "runtime \<Rightarrow> (nat \<Rightarrow> fetch_result) \<Rightarrow> client \<Rightarrow> (exn + result) awaited \<times> client" where
  "stopScraping rt net st =
     catching rt
       (\<lambda>err. JObj [(''error'', JStr (exn_message err)), (''status'', statusValue err)] None)
       failure
       (stopScrapingTry rt net st)"

subsection \<open>pollScrapingProgress\<close>

text \<open>
  The receiver \<^verbatim>\<open>this\<close> of a call of \<^verbatim>\<open>pollScrapingProgress\<close>: the service object when it is
  called as a method (\<^verbatim>\<open>apiService.pollScrapingProgress(...)\<close>, or on the copy that \<^verbatim>\<open>useApi()\<close>
  returns), and \<^verbatim>\<open>undefined\<close> when the named export \<^verbatim>\<open>pollScrapingProgress\<close>, which the module
  takes out of the object by destructuring, is called as a plain function.
\<close>

datatype receiver = Bound | Unbound

text \<open>
  The argument \<^verbatim>\<open>onProgress\<close>: falsy (no callback), truthy but not a function, or a function.
  A callback is given by what it does with the progress object it is passed: it returns
  (\<open>None\<close>) or throws a value (\<open>Some v\<close>). It does not call the service itself.
\<close>

datatype onProgress = Absent | NotAFunction | Function "jsvalue \<Rightarrow> jsvalue option"

definition maxPolls :: nat where
  "maxPolls = 300"

text \<open>\<^verbatim>\<open>Math.max(1000, Math.min(10000, pollInterval))\<close>\<close>

definition safePollInterval :: "int \<Rightarrow> int" where
  "safePollInterval pollInterval = max 1000 (min 10000 pollInterval)"

text \<open>One run of \<^verbatim>\<open>poll\<close> ends in \<^verbatim>\<open>resolve(r)\<close> or in \<^verbatim>\<open>setTimeout(poll, safePollInterval)\<close>.\<close>

datatype tick = Resolve result | Schedule

definition schedule :: "int \<Rightarrow> client \<Rightarrow> client" where
  "schedule ms st = st\<lparr>trace := trace st @ [SetTimeout ms]\<rparr>"

text \<open>
  \<^verbatim>\<open>if (onProgress) { try { onProgress(v) } catch (callbackError) {
  safeLog('error', 'Progress callback error', callbackError.message) } }\<close>: the error that
  leaves the statement, if any. Reading \<^verbatim>\<open>callbackError.message\<close> throws when the callback
  threw \<^verbatim>\<open>null\<close> or \<^verbatim>\<open>undefined\<close>, and \<^verbatim>\<open>safeLog\<close> throws as described above. (A truthy
  \<^verbatim>\<open>onProgress\<close> that is not a function is rejected before the loop starts; calling it would
  throw a \<^verbatim>\<open>TypeError\<close>, whose message is logged.)
\<close>

definition callOnProgress ::
  "runtime \<Rightarrow> onProgress \<Rightarrow> jsvalue \<Rightarrow> client \<Rightarrow> exn option \<times> client" where
  "callOnProgress rt cb v st =
     (case cb of
        Function f \<Rightarrow>
          (case f v of
             None \<Rightarrow> (None, st\<lparr>trace := trace st @ [Progress v]\<rparr>)
           | Some callbackError \<Rightarrow>
               (if nullish callbackError
                then Some (propertyReadError rt callbackError ''message'')
                else safeLog rt (get_prop callbackError ''message''),
                st\<lparr>trace := trace st @ [Progress v]\<rparr>))
      | other \<Rightarrow> (None, st))"

text \<open>The object passed to the callback.\<close>

definition progressData :: "result \<Rightarrow> jsvalue" where
  "progressData statusResponse =
     JObj [(''isRunning'', case isRunning statusResponse of Some b \<Rightarrow> JBool b | None \<Rightarrow> JUndefined),
           (''progress'', case progress statusResponse of Some n \<Rightarrow> JNum n | None \<Rightarrow> JUndefined),
           (''message'', get_prop (data statusResponse) ''message''),
           (''error'', get_prop (data statusResponse) ''error'')] None"

text \<open>
  The \<^verbatim>\<open>try\<close> block of \<^verbatim>\<open>poll\<close>. \<open>pollCount\<close> is the counter before \<^verbatim>\<open>pollCount++\<close>. The block
  ends in a tick, throws (\<open>Inl\<close>), or is suspended for ever at an \<^verbatim>\<open>await\<close> (\<open>Never\<close>).
  \<^verbatim>\<open>this.getScrapingStatus\<close> throws when \<^verbatim>\<open>this\<close> is \<^verbatim>\<open>undefined\<close>.
\<close>

definition pollTry ::
  "runtime \<Rightarrow> (nat \<Rightarrow> fetch_result) \<Rightarrow> receiver \<Rightarrow> onProgress \<Rightarrow> int \<Rightarrow> nat \<Rightarrow> client
   \<Rightarrow> (exn + tick) awaited \<times> client" where
  "pollTry rt net this cb interval pollCount st =
     (if Suc pollCount > maxPolls
      then (Got (Inr (Resolve (emptyResult\<lparr>success := False,
                                 error := JStr ''Polling timeout - operation took too long'',
                                 status := Some 408\<rparr>))), st)
      else if this = Unbound
      then (Got (Inl (propertyReadError rt JUndefined ''getScrapingStatus'')), st)
      else
        case getScrapingStatus rt net st of
          (Never, st1) \<Rightarrow> (Never, st1)
        | (Got (Inl e), st1) \<Rightarrow> (Got (Inl e), st1)
        | (Got (Inr statusResponse), st1) \<Rightarrow>
            if \<not> success statusResponse
            then (Got (Inr (Resolve (emptyResult\<lparr>success := False, error := error statusResponse,
                                       status := status statusResponse\<rparr>))), st1)
            else
              (case callOnProgress rt cb (progressData statusResponse) st1 of
                 (Some e, st2) \<Rightarrow> (Got (Inl e), st2)
               | (None, st2) \<Rightarrow>
                   if isRunning statusResponse \<noteq> Some True then
                     if truthy (get_prop (data statusResponse) ''error'')
                     then (Got (Inr (Resolve (emptyResult\<lparr>success := False,
                                       error := get_prop (data statusResponse) ''error'',
                                       message := get_prop (data statusResponse) ''message''\<rparr>))), st2)
                     else if truthy (get_prop (data statusResponse) ''results'')
                     then (Got (Inr (Resolve (emptyResult\<lparr>success := True,
                                       data := get_prop (data statusResponse) ''results'',
                                       message := JStr ''Scraping completed successfully''\<rparr>))), st2)
                     else (case getResults rt net st2 of
                             (Never, st3) \<Rightarrow> (Never, st3)
                           | (Got (Inl e), st3) \<Rightarrow> (Got (Inl e), st3)
                           | (Got (Inr resultsResponse), st3) \<Rightarrow>
                               if \<not> success resultsResponse
                               then (Got (Inr Schedule), schedule interval st3)
                               else (Got (Inr (Resolve resultsResponse)), st3))
                   else (Got (Inr Schedule), schedule interval st2)))"

text \<open>
  \<^verbatim>\<open>poll\<close>: the \<^verbatim>\<open>try\<close> block and
  \<^verbatim>\<open>catch (error) { resolve({ success: false, error: error.message || 'Polling failed', status: 0 }) }\<close>.
\<close>

definition poll ::
  "runtime \<Rightarrow> (nat \<Rightarrow> fetch_result) \<Rightarrow> receiver \<Rightarrow> onProgress \<Rightarrow> int \<Rightarrow> nat \<Rightarrow> client
   \<Rightarrow> tick awaited \<times> client" where
  "poll rt net this cb interval pollCount st =
     (case pollTry rt net this cb interval pollCount st of
        (Never, st') \<Rightarrow> (Never, st')
      | (Got (Inr t), st') \<Rightarrow> (Got t, st')
      | (Got (Inl e), st') \<Rightarrow>
          (Got (Resolve (emptyResult\<lparr>success := False,
                           error := JStr (if exn_message e = [] then ''Polling failed''
                                          else exn_message e),
                           status := Some 0\<rparr>)), st'))"

text \<open>
  The chain of runs of \<^verbatim>\<open>poll\<close>, each started by the timer of the one before: what the
  promise of \<^verbatim>\<open>pollScrapingProgress\<close> resolves with, or \<open>Never\<close> when a run is suspended for
  ever.
\<close>

function pollLoop ::
  "runtime \<Rightarrow> (nat \<Rightarrow> fetch_result) \<Rightarrow> receiver \<Rightarrow> onProgress \<Rightarrow> int \<Rightarrow> nat \<Rightarrow> client
   \<Rightarrow> result awaited \<times> client" where
  "pollLoop rt net this cb interval pollCount st =
     (case poll rt net this cb interval pollCount st of
        (Never, st') \<Rightarrow> (Never, st')
      | (Got (Resolve r), st') \<Rightarrow> (Got r, st')
      | (Got Schedule, st') \<Rightarrow> pollLoop rt net this cb interval (Suc pollCount) st')"
  by pat_completeness auto
termination
proof (relation "measure (\<lambda>(rt, net, this, cb, interval, pollCount, st). Suc maxPolls - pollCount)")
  show "wf (measure (\<lambda>(rt, net, this, cb, interval, pollCount, st). Suc maxPolls - pollCount))"
    by simp
next
  fix rt net this cb interval pollCount st x y z
  assume "(x, y) = poll rt net this cb interval pollCount st" and "x = Got z" and "z = Schedule"
  then have "fst (poll rt net this cb interval pollCount st) = Got Schedule"
    by (metis fst_conv)
  then have "\<not> Suc pollCount > maxPolls"
    by (auto simp: poll_def pollTry_def split: if_splits prod.splits awaited.splits sum.splits)
  then show "((rt, net, this, cb, interval, Suc pollCount, y), (rt, net, this, cb, interval, pollCount, st))
             \<in> measure (\<lambda>(rt, net, this, cb, interval, pollCount, st). Suc maxPolls - pollCount)"
    by simp
qed

declare pollLoop.simps [simp del]

text \<open>
  \<^verbatim>\<open>pollScrapingProgress(onProgress, pollInterval)\<close>: rejects when \<^verbatim>\<open>onProgress\<close> is truthy and
  not a function, and otherwise returns the promise that the first \<^verbatim>\<open>resolve\<close> settles.
\<close>

definition pollScrapingProgress ::
  "runtime \<Rightarrow> (nat \<Rightarrow> fetch_result) \<Rightarrow> client \<Rightarrow> receiver \<Rightarrow> onProgress \<Rightarrow> int
   \<Rightarrow> (exn + result) awaited \<times> client" where
  "pollScrapingProgress rt net st this cb pollInterval =
     (case cb of
        NotAFunction \<Rightarrow> (Got (Inl (ApiError ''onProgress must be a function'' 400 JNull)), st)
      | other \<Rightarrow>
          (case pollLoop rt net this cb (safePollInterval pollInterval) 0 st of
             (Never, st') \<Rightarrow> (Never, st')
           | (Got r, st') \<Rightarrow> (Got (Inr r), st')))"

section \<open>The application component\<close>








text \<open>
  The page: the component state, one poll loop of the service, and the service module.
  The loop is the one a caller of \<^verbatim>\<open>pollScrapingProgress\<close> starts; its counter and its timer
  live in the closure of that call, and the value \<open>loop\<close> tells where it stands: not
  started, a run of \<^verbatim>\<open>poll\<close> pending on the timer with the counter at \<open>pollCount\<close>, a run
  suspended for ever at an \<^verbatim>\<open>await\<close>, or resolved. Handlers and runs of \<^verbatim>\<open>poll\<close> take place
  one at a time.
\<close>

datatype loop = NotStarted | Polling nat | Suspended | Settled result











section \<open>Observations on runs\<close>

text \<open>Callers of \<^verbatim>\<open>makeRequest\<close> and settlements of promises, interleaved in any order.\<close>

datatype action = Call string options | Settles nat

fun step :: "runtime \<Rightarrow> client \<Rightarrow> action \<Rightarrow> client" where
  "step rt st (Call url opts) = fst (snd (makeRequest rt st url opts))"
| "step rt st (Settles p) = settle st p"

definition run :: "runtime \<Rightarrow> client \<Rightarrow> action list \<Rightarrow> client" where
  "run rt st acts = foldl (step rt) st acts"

text \<open>The delays awaited, and the requests sent (method and path), in order.\<close>

fun delays :: "event list \<Rightarrow> nat list" where
  "delays [] = []"
| "delays (Delay ms # es) = ms # delays es"
| "delays (e # es) = delays es"

fun fetches :: "event list \<Rightarrow> (string option \<times> string) list" where
  "fetches [] = []"
| "fetches (Fetch p m u b # es) = (m, u) # fetches es"
| "fetches (e # es) = fetches es"

text \<open>The number of calls of \<^verbatim>\<open>fetch\<close> made for promise \<open>p\<close>.\<close>

fun fetchCount :: "nat \<Rightarrow> event list \<Rightarrow> nat" where
  "fetchCount p [] = 0"
| "fetchCount p (Fetch q m u b # es) = (if q = p then 1 else 0) + fetchCount p es"
| "fetchCount p (e # es) = fetchCount p es"

text \<open>An action that is a call of \<^verbatim>\<open>makeRequest\<close> computing the request key \<open>k\<close>.\<close>

fun callsKey :: "runtime \<Rightarrow> string \<Rightarrow> action \<Rightarrow> bool" where
  "callsKey rt k (Call url opts) = (url \<noteq> [] \<and> getRequestKey rt url opts = k)"
| "callsKey rt k (Settles p) = False"

text \<open>
  The invariant of the registry: \<^verbatim>\<open>activeRequests\<close> maps each key to a pending promise whose
  closure holds that key, every pending promise is registered under its key, promise
  names below the counter are the ones in use, and each of them had one call of \<^verbatim>\<open>fetch\<close>.
\<close>

definition consistent :: "client \<Rightarrow> bool" where
  "consistent st =
     ((\<forall>k p. activeRequests st k = Some p \<longleftrightarrow> requestKeys st p = Some k) \<and>
      (\<forall>p k. requestKeys st p = Some k \<longrightarrow> p < nextPromise st) \<and>
      (\<forall>p. fetchCount p (trace st) = (if p < nextPromise st then 1 else 0)))"

text \<open>No request is in flight.\<close>

definition quiet :: "client \<Rightarrow> bool" where
  "quiet st = (activeRequests st = Map.empty \<and> requestKeys st = Map.empty)"

text \<open>The state after a request without body was sent and has settled.\<close>

definition afterFetch :: "string option \<Rightarrow> string \<Rightarrow> client \<Rightarrow> client" where
  "afterFetch m url st =
     st\<lparr>nextPromise := Suc (nextPromise st),
        trace := trace st @ [Fetch (nextPromise st) m url None]\<rparr>"

text \<open>
  The status snapshot: what the promise of \<^verbatim>\<open>getScrapingStatus\<close> does when the network
  answers its request with \<open>fr\<close>; likewise for \<^verbatim>\<open>getResults\<close>.
\<close>

definition snapshot :: "runtime \<Rightarrow> fetch_result \<Rightarrow> (exn + result) awaited" where
  "snapshot rt fr = fst (getScrapingStatus rt (\<lambda>p. fr) newClient)"

definition resultsAnswer :: "runtime \<Rightarrow> fetch_result \<Rightarrow> (exn + result) awaited" where
  "resultsAnswer rt fr = fst (getResults rt (\<lambda>p. fr) newClient)"

text \<open>
  The network answers with an \<^verbatim>\<open>ok\<close> response of JSON content type whose body \<^verbatim>\<open>response.json()\<close>
  decodes to \<open>v\<close>; and the names of the fields of a decoded object.
\<close>

definition decodesTo :: "fetch_result \<Rightarrow> jsvalue \<Rightarrow> bool" where
  "decodesTo fr v =
     (case fr of
        FetchRejects name msg \<Rightarrow> False
      | FetchResolves r \<Rightarrow>
          200 \<le> resp_status r \<and> resp_status r \<le> 299 \<and>
          (case resp_contentType r of
             None \<Rightarrow> False
           | Some contentType \<Rightarrow> str_includes contentType ''application/json'') \<and>
          resp_json r = Got (Inr v))"

fun fieldNames :: "jsvalue \<Rightarrow> string list" where
  "fieldNames (JObj kvs proto) = map fst kvs"
| "fieldNames v = []"

text \<open>A snapshot of a running job.\<close>

definition running :: "result \<Rightarrow> bool" where
  "running s = (success s \<and> isRunning s = Some True)"

text \<open>The network answer \<open>fr\<close> to a status request shows a running job.\<close>

definition seenRunning :: "runtime \<Rightarrow> fetch_result \<Rightarrow> bool" where
  "seenRunning rt fr = (case snapshot rt fr of Got (Inr s) \<Rightarrow> running s | other \<Rightarrow> False)"

text \<open>
  A callback is contained when whatever it throws stays in the \<^verbatim>\<open>catch\<close> block around its
  call: the thrown value is neither \<^verbatim>\<open>null\<close> nor \<^verbatim>\<open>undefined\<close>, and logging its \<^verbatim>\<open>message\<close>
  does not throw. A callback that returns is contained.
\<close>

definition contained :: "runtime \<Rightarrow> onProgress \<Rightarrow> bool" where
  "contained rt cb =
     (case cb of
        Function f \<Rightarrow>
          (\<forall>v. case f v of
                 None \<Rightarrow> True
               | Some thrown \<Rightarrow> \<not> nullish thrown \<and> safeLog rt (get_prop thrown ''message'') = None)
      | other \<Rightarrow> True)"

text \<open>
  A failure result as the operations return it: \<^verbatim>\<open>success: false\<close>, an error message that
  is a string, and a numeric status.
\<close>

definition failed :: "result \<Rightarrow> bool" where
  "failed r = (\<not> success r \<and> (case error r of JStr m \<Rightarrow> True | other \<Rightarrow> False) \<and> status r \<noteq> None)"





text \<open>The number of status polls among the requests sent.\<close>

definition statusPolls :: "event list \<Rightarrow> nat" where
  "statusPolls tr = length (filter (\<lambda>f. snd f = STATUS) (fetches tr))"



subsection \<open>A runtime and a network for concrete runs\<close>

text \<open>
  Each function is given on the arguments the runs below apply it to: DOMPurify returns text
  without markup unchanged; \<^verbatim>\<open>JSON.stringify\<close> of a string without characters to escape
  puts it between double quotes, and objects of such strings are written field by field;
  \<^verbatim>\<open>JSON.parse\<close> reads back the body \<^verbatim>\<open>{"date":"YYYY-MM-DD"}\<close> that \<^verbatim>\<open>startScraping\<close> sends. The
  build is not a production build.
\<close>

definition dq :: char where
  "dq = CHR 0x22"

definition sq :: char where
  "sq = CHR 0x27"

fun plainFields :: "(string \<times> jsvalue) list \<Rightarrow> string" where
  "plainFields [] = []"
| "plainFields ((k, JStr s) # kvs) =
     [dq] @ k @ [dq] @ '':'' @ [dq] @ s @ [dq] @ (if kvs = [] then [] else '','' @ plainFields kvs)"
| "plainFields (kv # kvs) = plainFields kvs"

fun plainStringify :: "jsvalue \<Rightarrow> string" where
  "plainStringify (JStr s) = [dq] @ s @ [dq]"
| "plainStringify (JObj kvs proto) = ''{'' @ plainFields kvs @ ''}''"
| "plainStringify v = ''null''"

definition plainParse :: "string \<Rightarrow> jsvalue option" where
  "plainParse s =
     (if length s = 21 \<and> take 9 s = ''{'' @ [dq] @ ''date'' @ [dq] @ '':'' @ [dq]
         \<and> drop 19 s = [dq] @ ''}''
      then Some (JObj [(''date'', JStr (take 10 (drop 9 s)))] None)
      else None)"

definition plainReadError :: "jsvalue \<Rightarrow> string \<Rightarrow> exn" where
  "plainReadError v k =
     JsError ''TypeError''
       (''Cannot read properties of '' @ (case v of JNull \<Rightarrow> ''null'' | other \<Rightarrow> ''undefined'')
        @ '' (reading '' @ [sq] @ k @ [sq] @ '')'')"

definition plainRuntime :: runtime where
  "plainRuntime =
     \<lparr>purify = (\<lambda>s. s), jsonParse = plainParse, jsonStringify = plainStringify,
      stringifyFailure = JsError ''TypeError'' ''Do not know how to serialize a BigInt'',
      toNumber = (\<lambda>v. Inr NaN), toStr = (\<lambda>v. Inr ''[object Object]''),
      numToString = (\<lambda>n. ''NaN''), parseInt = (\<lambda>s. NaN),
      propertyReadError = plainReadError, dayOverflow = True, IS_PRODUCTION = False\<rparr>"

definition jsonResponse :: "nat \<Rightarrow> jsvalue \<Rightarrow> fetch_result" where
  "jsonResponse code v =
     FetchResolves \<lparr>resp_status = code, resp_statusText = [], resp_retryAfter = None,
                    resp_contentType = Some ''application/json'', resp_json = Got (Inr v),
                    resp_text = Got (Inr [])\<rparr>"

text \<open>A response whose headers arrive and whose body never does.\<close>

definition stalledBody :: fetch_result where
  "stalledBody =
     FetchResolves \<lparr>resp_status = 200, resp_statusText = ''OK'', resp_retryAfter = None,
                    resp_contentType = Some ''application/json'', resp_json = Never,
                    resp_text = Never\<rparr>"

text \<open>
  A job that reports done without error or results while its results are not ready, and
  then reports an error.
\<close>

definition doneThenError :: "nat \<Rightarrow> fetch_result" where
  "doneThenError p =
     (if p = 0 then jsonResponse 200 (JObj [(''is_running'', JBool False)] None)
      else if p = 1 then jsonResponse 202 (JObj [(''success'', JBool False)] None)
      else jsonResponse 200 (JObj [(''is_running'', JBool False), (''error'', JStr ''x'')] None))"

text \<open>A job that runs for three ticks and then reports an error.\<close>

definition runningThenError :: "nat \<Rightarrow> fetch_result" where
  "runningThenError p =
     (if p < 3
      then jsonResponse 200 (JObj [(''is_running'', JBool True), (''progress'', JNum (Fin 50))] None)
      else jsonResponse 200 (JObj [(''is_running'', JBool False), (''error'', JStr ''x'')] None))"




text \<open>A server that answers the first request with status 500 and every later one well.\<close>

definition failsOnce :: "nat \<Rightarrow> fetch_result" where
  "failsOnce p =
     (if p = 0 then jsonResponse 500 JNull
      else jsonResponse 200 (JObj [(''is_running'', JBool True), (''status'', JStr ''ok'')] None))"

text \<open>A job that runs for two ticks, after which the status request is answered with 500.\<close>

definition runningThenDown :: "nat \<Rightarrow> fetch_result" where
  "runningThenDown p =
     (if p < 2 then jsonResponse 200 (JObj [(''is_running'', JBool True)] None)
      else jsonResponse 500 JNull)"

text \<open>A server that accepts every request with a message.\<close>

definition accepting :: "nat \<Rightarrow> fetch_result" where
  "accepting p = jsonResponse 200 (JObj [(''message'', JStr ''started'')] None)"

text \<open>A callback that throws an error with a message, and one that throws \<^verbatim>\<open>null\<close>.\<close>

definition throwsError :: onProgress where
  "throwsError = Function (\<lambda>v. Some (JObj [(''message'', JStr ''callback failed'')] None))"

definition throwsNull :: onProgress where
  "throwsNull = Function (\<lambda>v. Some JNull)"


definition GET :: options where
  "GET = \<lparr>httpMethod = Some ''GET'', body = None\<rparr>"

definition aborted :: fetch_result where
  "aborted = FetchRejects ''AbortError'' ''The operation was aborted.''"

section \<open>Properties\<close>


subsection \<open>Effects of a request on the trace\<close>

lemma delays_append: "delays (xs @ ys) = delays xs @ delays ys"
  by (induction xs rule: delays.induct) auto

lemma fetches_append: "fetches (xs @ ys) = fetches xs @ fetches ys"
  by (induction xs rule: fetches.induct) auto

lemma settle_trace: "trace (settle st p) = trace st"
  by (simp add: settle_def split: option.splits)

lemma makeRequest_delays:
  "makeRequest rt st url opts = (r, st', opts') \<Longrightarrow> delays (trace st') = delays (trace st)"
  by (auto simp: makeRequest_def Let_def delays_append split: if_splits option.splits)

lemma awaitRequest_delays:
  "awaitRequest rt net st url opts = (r, st', opts') \<Longrightarrow> delays (trace st') = delays (trace st)"
  by (auto simp: awaitRequest_def settle_trace split: prod.splits sum.splits awaited.splits
           dest: makeRequest_delays)

subsection \<open>Retry and backoff\<close>

text \<open>
  A run of \<^verbatim>\<open>makeRequestWithRetry\<close> entered with attempt number \<open>attempt\<close> awaits the delays
  computed after the attempts \<open>attempt, attempt + 1, ...\<close>, one per retry, and retries only
  while the attempt number is below \<open>MAX_RETRY_ATTEMPTS\<close>.
\<close>

lemma retry_delays:
  "makeRequestWithRetry rt net st url opts attempt = (res, st') \<Longrightarrow>
   \<exists>n. (n = 0 \<or> attempt + n \<le> MAX_RETRY_ATTEMPTS) \<and>
       delays (trace st') = delays (trace st) @ map retryDelay [attempt ..< attempt + n]"
proof (induction rt net st url opts attempt arbitrary: res st' rule: makeRequestWithRetry.induct)
  case (1 rt net st url opts attempt)
  obtain r st1 opts1 where aw: "awaitRequest rt net st url opts = (r, st1, opts1)"
    by (cases "awaitRequest rt net st url opts") auto
  have d1: "delays (trace st1) = delays (trace st)" using awaitRequest_delays[OF aw] .
  show ?case
  proof (cases r)
    case Never
    with aw "1.prems" have "st' = st1"
      by (subst (asm) makeRequestWithRetry.simps) simp
    with d1 show ?thesis by (intro exI[of _ 0]) simp
  next
    case (Got outcome)
    show ?thesis
    proof (cases outcome)
    case (Inr v)
    with Got aw "1.prems" have "st' = st1"
      by (subst (asm) makeRequestWithRetry.simps) simp
    with d1 show ?thesis by (intro exI[of _ 0]) simp
  next
    case (Inl e)
    show ?thesis
    proof (cases "attempt \<ge> MAX_RETRY_ATTEMPTS \<or> \<not> shouldRetry e")
      case True
      with aw Got Inl "1.prems" have "st' = st1"
        by (subst (asm) makeRequestWithRetry.simps) (auto split: if_splits)
      with d1 show ?thesis by (intro exI[of _ 0]) simp
    next
      case False
      let ?st2 = "st1\<lparr>trace := trace st1 @ [Delay (retryDelay attempt)]\<rparr>"
      from False aw Got Inl "1.prems"
      have rec: "makeRequestWithRetry rt net ?st2 url opts1 (Suc attempt) = (res, st')"
        by (subst (asm) makeRequestWithRetry.simps) auto
      from False have c1: "\<not> MAX_RETRY_ATTEMPTS \<le> attempt" and c2: "\<not> \<not> shouldRetry e" by auto
      from "1.IH"[OF aw[symmetric] Got Inl refl c1 c2 rec]
      obtain n where n: "n = 0 \<or> Suc attempt + n \<le> MAX_RETRY_ATTEMPTS"
        and dn: "delays (trace st') = delays (trace ?st2) @ map retryDelay [Suc attempt ..< Suc attempt + n]"
        by blast
      have "delays (trace st') = delays (trace st) @ map retryDelay [attempt ..< attempt + Suc n]"
      proof -
        have "[attempt ..< attempt + Suc n] = attempt # [Suc attempt ..< Suc attempt + n]"
          by (subst upt_rec) simp
        then show ?thesis using dn d1 by (simp add: delays_append)
      qed
      moreover have "attempt + Suc n \<le> MAX_RETRY_ATTEMPTS" using n c1 by auto
      ultimately show ?thesis by blast
    qed
  qed
  qed
qed




text \<open>
  An aborted fetch (the request timer fired) leaves \<^verbatim>\<open>makeRequest\<close> as an \<^verbatim>\<open>ApiError\<close> with
  status 408, whose name is \<^verbatim>\<open>'ApiError'\<close>: the test \<^verbatim>\<open>error.name === 'AbortError'\<close> of
  \<^verbatim>\<open>makeRequestWithRetry\<close> never sees the name it looks for.
\<close>

lemma catchRequest_ApiError: "instanceof_ApiError (catchRequest rt e)"
  by (cases e) (simp_all add: catchRequest_def)

lemma catchRequest_abort:
  "catchRequest rt (JsError ''AbortError'' msg)
   = ApiError ''Request timeout - server is taking too long to respond'' 408 JNull"
  by (simp add: catchRequest_def)

lemma timeout_not_retryable: "\<not> shouldRetry (catchRequest rt (JsError ''AbortError'' msg))"
  by (simp add: catchRequest_abort shouldRetry_def)

text \<open>What is retried: status 0 and the statuses from 500 on; no status from 1 to 499.\<close>

lemma shouldRetry_ApiError: "shouldRetry (ApiError m s d) = (s = 0 \<or> 500 \<le> s)"
  by (auto simp: shouldRetry_def)

lemma retry_at_most_three_attempts:
  assumes "makeRequestWithRetry rt net st url opts 1 = (res, st')"
  shows "length (delays (trace st')) \<le> length (delays (trace st)) + 2"
proof -
  from retry_delays[OF assms] obtain n
    where n: "n = 0 \<or> 1 + n \<le> MAX_RETRY_ATTEMPTS"
      and d: "delays (trace st') = delays (trace st) @ map retryDelay [1 ..< 1 + n]"
    by blast
  from n have "n \<le> 2" by (auto simp: MAX_RETRY_ATTEMPTS_def)
  with d show ?thesis by simp
qed

lemma not_retryable_single_attempt:
  assumes aw: "awaitRequest rt net st url opts = (Got (Inl e), st1, opts1)"
    and no: "\<not> shouldRetry e"
  shows "makeRequestWithRetry rt net st url opts attempt = (Got (Inl e), st1)"
  using aw no by (subst makeRequestWithRetry.simps) simp

lemma client_error_single_attempt:
  assumes aw: "awaitRequest rt net st url opts = (Got (Inl (ApiError m s d)), st1, opts1)"
    and s: "0 < s" "s < 500"
  shows "makeRequestWithRetry rt net st url opts attempt = (Got (Inl (ApiError m s d)), st1)"
proof -
  from s have "\<not> shouldRetry (ApiError m s d)" by (simp add: shouldRetry_ApiError)
  with aw show ?thesis by (rule not_retryable_single_attempt)
qed

lemma last_error_surfaced:
  assumes aw: "awaitRequest rt net st url opts = (Got (Inl e), st1, opts1)"
  shows "makeRequestWithRetry rt net st url opts MAX_RETRY_ATTEMPTS = (Got (Inl e), st1)"
  using aw by (subst makeRequestWithRetry.simps) simp

text \<open>
  C2. The timed-out request is not retried. Every fetch is aborted by the request timer;
  \<^verbatim>\<open>makeRequestWithRetry\<close> makes one attempt (one fetch, no delay) and rejects with the
  timeout error of status 408.
\<close>

theorem timeout_is_not_retried:
  "makeRequestWithRetry plainRuntime (\<lambda>p. aborted) newClient HEALTH
     \<lparr>httpMethod = Some ''GET'', body = None\<rparr> 1
   = (Got (Inl (ApiError ''Request timeout - server is taking too long to respond'' 408 JNull)),
      newClient\<lparr>nextPromise := 1, trace := [Fetch 0 (Some ''GET'') ''/api/health'' None]\<rparr>)"
  by (simp add: makeRequestWithRetry.simps awaitRequest_def makeRequest_def getRequestKey_def
        sanitizeBody_def settle_def requestPromise_def catchRequest_def aborted_def
        plainRuntime_def newClient_def HEALTH_def Let_def shouldRetry_def MAX_RETRY_ATTEMPTS_def)

subsection \<open>The registry of in-flight requests\<close>

lemma fetchCount_append: "fetchCount p (xs @ ys) = fetchCount p xs + fetchCount p ys"
  by (induction p xs rule: fetchCount.induct) auto

lemma consistent_newClient: "consistent newClient"
  by (simp add: consistent_def newClient_def)

lemma makeRequest_attached:
  "url \<noteq> [] \<Longrightarrow> activeRequests st (getRequestKey rt url opts) = Some p \<Longrightarrow>
   makeRequest rt st url opts = (Inr p, st, opts)"
  by (simp add: makeRequest_def)

lemma makeRequest_fresh:
  "url \<noteq> [] \<Longrightarrow> activeRequests st (getRequestKey rt url opts) = None \<Longrightarrow>
   makeRequest rt st url opts =
     (Inr (nextPromise st),
      st\<lparr>activeRequests := (activeRequests st)(getRequestKey rt url opts \<mapsto> nextPromise st),
         requestKeys := (requestKeys st)(nextPromise st \<mapsto> getRequestKey rt url opts),
         nextPromise := Suc (nextPromise st),
         trace := trace st @ [Fetch (nextPromise st) (httpMethod (sanitizeBody rt opts)) url
                                (body (sanitizeBody rt opts))]\<rparr>,
      sanitizeBody rt opts)"
  by (simp add: makeRequest_def Let_def)

lemma makeRequest_invalid:
  "makeRequest rt st [] opts = (Inl (ApiError ''Invalid URL provided'' 400 JNull), st, opts)"
  by (simp add: makeRequest_def)

lemma makeRequest_pending_url:
  "makeRequest rt st url opts = (Inr p, st1, opts1) \<Longrightarrow> url \<noteq> []"
  by (auto simp: makeRequest_def)

lemma makeRequest_registers:
  assumes "makeRequest rt st url opts = (Inr p, st1, opts1)"
  shows "activeRequests st1 (getRequestKey rt url opts) = Some p"
proof -
  have url: "url \<noteq> []" using assms by (rule makeRequest_pending_url)
  show ?thesis
  proof (cases "activeRequests st (getRequestKey rt url opts)")
    case None
    with assms url show ?thesis by (auto simp: makeRequest_fresh)
  next
    case (Some q)
    with assms url show ?thesis by (auto simp: makeRequest_attached)
  qed
qed

lemma consistent_makeRequest:
  assumes c: "consistent st" and m: "makeRequest rt st url opts = (r, st1, opts1)"
  shows "consistent st1"
proof (cases "url = []")
  case True
  with m c show ?thesis by (auto simp: makeRequest_invalid)
next
  case url: False
  show ?thesis
  proof (cases "activeRequests st (getRequestKey rt url opts)")
    case (Some q)
    with m url c show ?thesis by (auto simp: makeRequest_attached)
  next
    case None
    let ?k = "getRequestKey rt url opts"
    let ?n = "nextPromise st"
    from c have bound: "\<And>p k. requestKeys st p = Some k \<Longrightarrow> p < ?n"
      and iff: "\<And>k p. activeRequests st k = Some p \<longleftrightarrow> requestKeys st p = Some k"
      and cnt: "\<And>p. fetchCount p (trace st) = (if p < ?n then 1 else 0)"
      by (auto simp: consistent_def)
    have nokey: "requestKeys st ?n = None"
      using bound[of ?n] by (cases "requestKeys st ?n") auto
    have nop: "\<And>p. requestKeys st p \<noteq> Some ?k"
      using iff[of ?k] None by auto
    from m url None have st1: "st1 = st\<lparr>activeRequests := (activeRequests st)(?k \<mapsto> ?n),
         requestKeys := (requestKeys st)(?n \<mapsto> ?k),
         nextPromise := Suc ?n,
         trace := trace st @ [Fetch ?n (httpMethod (sanitizeBody rt opts)) url
                                (body (sanitizeBody rt opts))]\<rparr>"
      by (auto simp: makeRequest_fresh)
    have a: "\<forall>k p. activeRequests st1 k = Some p \<longleftrightarrow> requestKeys st1 p = Some k"
      using iff nokey nop None by (auto simp: st1)
    have b: "\<forall>p k. requestKeys st1 p = Some k \<longrightarrow> p < nextPromise st1"
      using bound by (auto simp: st1 less_Suc_eq)
    have d: "\<forall>p. fetchCount p (trace st1) = (if p < nextPromise st1 then 1 else 0)"
      using cnt by (auto simp: st1 fetchCount_append less_Suc_eq)
    from a b d show ?thesis unfolding consistent_def by blast
  qed
qed

lemma consistent_settle:
  assumes c: "consistent st"
  shows "consistent (settle st p)"
proof (cases "requestKeys st p")
  case None
  with c show ?thesis by (simp add: settle_def)
next
  case (Some k)
  from c have bound: "\<And>p k. requestKeys st p = Some k \<Longrightarrow> p < nextPromise st"
    and iff: "\<And>k p. activeRequests st k = Some p \<longleftrightarrow> requestKeys st p = Some k"
    and cnt: "\<And>p. fetchCount p (trace st) = (if p < nextPromise st then 1 else 0)"
    by (auto simp: consistent_def)
  have st': "settle st p = st\<lparr>activeRequests := (activeRequests st)(k := None),
                               requestKeys := (requestKeys st)(p := None)\<rparr>"
    using Some by (simp add: settle_def)
  have act: "activeRequests st k = Some p" using iff Some by simp
  have uniq: "q = p" if "requestKeys st q = Some k" for q
  proof -
    from that have "activeRequests st k = Some q" by (simp add: iff)
    with act show ?thesis by simp
  qed
  have a: "\<forall>k' q. activeRequests (settle st p) k' = Some q \<longleftrightarrow> requestKeys (settle st p) q = Some k'"
  proof (intro allI)
    fix k' q
    show "activeRequests (settle st p) k' = Some q \<longleftrightarrow> requestKeys (settle st p) q = Some k'"
    proof (cases "k' = k")
      case True
      show ?thesis using uniq[of q] by (auto simp: st' True)
    next
      case False
      have np: "requestKeys st p \<noteq> Some k'" using Some False by simp
      show ?thesis using iff[of k' q] False np by (auto simp: st')
    qed
  qed
  have b: "\<forall>q k'. requestKeys (settle st p) q = Some k' \<longrightarrow> q < nextPromise (settle st p)"
    using bound by (auto simp: st')
  have d: "\<forall>q. fetchCount q (trace (settle st p)) = (if q < nextPromise (settle st p) then 1 else 0)"
    using cnt by (simp add: st')
  from a b d show ?thesis unfolding consistent_def by blast
qed

lemma consistent_step: "consistent st \<Longrightarrow> consistent (step rt st a)"
proof (cases a)
  case (Call url opts)
  assume "consistent st"
  then show ?thesis
    using consistent_makeRequest[of st rt url opts "fst (makeRequest rt st url opts)"
            "fst (snd (makeRequest rt st url opts))" "snd (snd (makeRequest rt st url opts))"]
    by (simp add: Call)
next
  case (Settles p)
  assume "consistent st"
  then show ?thesis by (simp add: Settles consistent_settle)
qed

lemma consistent_run: "consistent st \<Longrightarrow> consistent (run rt st acts)"
  unfolding run_def by (induction acts arbitrary: st) (auto intro: consistent_step)

lemma step_keeps_pending:
  assumes c: "consistent st" and act: "activeRequests st k = Some p" and a: "a \<noteq> Settles p"
  shows "activeRequests (step rt st a) k = Some p"
proof (cases a)
  case (Call url opts)
  show ?thesis
  proof (cases "url = []")
    case True
    with act show ?thesis by (simp add: Call makeRequest_invalid)
  next
    case url: False
    show ?thesis
    proof (cases "activeRequests st (getRequestKey rt url opts)")
      case (Some q)
      with url act show ?thesis by (simp add: Call makeRequest_attached)
    next
      case None
      with act have "getRequestKey rt url opts \<noteq> k" by auto
      with url None act show ?thesis by (simp add: Call makeRequest_fresh)
    qed
  qed
next
  case (Settles q)
  with a have qp: "q \<noteq> p" by simp
  from c have iff: "\<And>k p. activeRequests st k = Some p \<longleftrightarrow> requestKeys st p = Some k"
    by (auto simp: consistent_def)
  show ?thesis
  proof (cases "requestKeys st q")
    case None
    with act show ?thesis by (simp add: Settles settle_def)
  next
    case (Some k')
    have "k' \<noteq> k"
    proof
      assume "k' = k"
      with Some iff[of k q] act qp show False by simp
    qed
    with Some act show ?thesis by (simp add: Settles settle_def)
  qed
qed

lemma run_keeps_pending:
  "consistent st \<Longrightarrow> activeRequests st k = Some p \<Longrightarrow> Settles p \<notin> set acts \<Longrightarrow>
   activeRequests (run rt st acts) k = Some p"
  unfolding run_def
proof (induction acts arbitrary: st)
  case Nil
  then show ?case by simp
next
  case (Cons a acts)
  from Cons.prems have "a \<noteq> Settles p" and rest: "Settles p \<notin> set acts" by auto
  with Cons.prems have "activeRequests (step rt st a) k = Some p"
    by (intro step_keeps_pending) auto
  moreover have "consistent (step rt st a)" using Cons.prems by (intro consistent_step)
  ultimately show ?case using Cons.IH[OF _ _ rest] by simp
qed

lemma settle_deletes:
  assumes c: "consistent st" and act: "activeRequests st k = Some p"
  shows "activeRequests (settle st p) k = None"
proof -
  from c act have "requestKeys st p = Some k" by (auto simp: consistent_def)
  then show ?thesis by (simp add: settle_def)
qed

lemma step_keeps_absent:
  assumes "activeRequests st k = None" and "\<not> callsKey rt k a"
  shows "activeRequests (step rt st a) k = None"
proof (cases a)
  case (Call url opts)
  show ?thesis
  proof (cases "url = []")
    case True
    with assms show ?thesis by (simp add: Call makeRequest_invalid)
  next
    case url: False
    with assms Call have neq: "getRequestKey rt url opts \<noteq> k" by simp
    show ?thesis
    proof (cases "activeRequests st (getRequestKey rt url opts)")
      case (Some q)
      with url assms show ?thesis by (simp add: Call makeRequest_attached)
    next
      case None
      with url assms neq show ?thesis by (simp add: Call makeRequest_fresh)
    qed
  qed
next
  case (Settles q)
  with assms show ?thesis by (simp add: settle_def split: option.splits)
qed

lemma run_keeps_absent:
  "activeRequests st k = None \<Longrightarrow> \<not> list_ex (callsKey rt k) acts \<Longrightarrow>
   activeRequests (run rt st acts) k = None"
  unfolding run_def
proof (induction acts arbitrary: st)
  case Nil
  then show ?case by simp
next
  case (Cons a acts)
  from Cons.prems have na: "\<not> callsKey rt k a" and rest: "\<not> list_ex (callsKey rt k) acts"
    by auto
  have "activeRequests (step rt st a) k = None"
    using Cons.prems(1) na by (rule step_keeps_absent)
  then show ?case using Cons.IH[OF _ rest] by simp
qed

lemma nextPromise_step: "nextPromise st \<le> nextPromise (step rt st a)"
  by (cases a) (auto simp: makeRequest_def settle_def Let_def split: option.splits)

lemma nextPromise_run: "nextPromise st \<le> nextPromise (run rt st acts)"
  unfolding run_def
proof (induction acts arbitrary: st)
  case Nil
  then show ?case by simp
next
  case (Cons a acts)
  have "nextPromise st \<le> nextPromise (step rt st a)" by (rule nextPromise_step)
  also have "\<dots> \<le> nextPromise (foldl (step rt) (step rt st a) acts)" by (rule Cons.IH)
  finally show ?case by simp
qed

lemma nextPromise_settle: "nextPromise (settle st p) = nextPromise st"
  by (simp add: settle_def split: option.splits)

text \<open>
  C1. In any state the module can reach, let a call of \<^verbatim>\<open>makeRequest\<close> return the pending
  promise \<open>p\<close>. Whatever happens in between (other calls, other promises settling), as long
  as \<open>p\<close> has not settled a second call with the same method, URL and body returns the same
  promise \<open>p\<close> and changes nothing, so it dispatches no request, and exactly one call of
  \<^verbatim>\<open>fetch\<close> was made for \<open>p\<close>. When \<open>p\<close> settles the key is deleted, and the next identical
  call returns a new promise and dispatches a new request.
\<close>

theorem in_flight_request_is_shared:
  assumes first: "makeRequest rt (run rt newClient history) url opts = (Inr p, st1, opts1)"
    and pending: "Settles p \<notin> set between"
    and nocall: "\<not> list_ex (callsKey rt (getRequestKey rt url opts)) later"
  shows "makeRequest rt (run rt st1 between) url opts = (Inr p, run rt st1 between, opts) \<and>
         fetchCount p (trace (run rt st1 between)) = 1 \<and>
         activeRequests (settle (run rt st1 between) p) (getRequestKey rt url opts) = None \<and>
         (\<exists>p' st'. p' \<noteq> p \<and>
            makeRequest rt (run rt (settle (run rt st1 between) p) later) url opts
              = (Inr p', st', sanitizeBody rt opts) \<and>
            trace st' = trace (run rt (settle (run rt st1 between) p) later)
                        @ [Fetch p' (httpMethod (sanitizeBody rt opts)) url (body (sanitizeBody rt opts))])"
proof -
  let ?k = "getRequestKey rt url opts"
  let ?st0 = "run rt newClient history"
  let ?st2 = "run rt st1 between"
  let ?st3 = "settle ?st2 p"
  let ?st4 = "run rt ?st3 later"
  have url: "url \<noteq> []" using first by (rule makeRequest_pending_url)
  have c0: "consistent ?st0" by (rule consistent_run[OF consistent_newClient])
  have c1: "consistent st1" using c0 first by (rule consistent_makeRequest)
  have a1: "activeRequests st1 ?k = Some p" using first by (rule makeRequest_registers)
  have c2: "consistent ?st2" using c1 by (rule consistent_run)
  have a2: "activeRequests ?st2 ?k = Some p" using c1 a1 pending by (rule run_keeps_pending)
  have second: "makeRequest rt ?st2 url opts = (Inr p, ?st2, opts)"
    using url a2 by (rule makeRequest_attached)
  from c2 a2 have rk: "requestKeys ?st2 p = Some ?k" by (auto simp: consistent_def)
  with c2 have lt: "p < nextPromise ?st2" by (auto simp: consistent_def)
  with c2 have one: "fetchCount p (trace ?st2) = 1" by (auto simp: consistent_def)
  have a3: "activeRequests ?st3 ?k = None" using c2 a2 by (rule settle_deletes)
  have a4: "activeRequests ?st4 ?k = None" using a3 nocall by (rule run_keeps_absent)
  have "nextPromise ?st2 \<le> nextPromise ?st4"
    using nextPromise_run[of ?st3 rt later] by (simp add: nextPromise_settle)
  with lt have ne: "nextPromise ?st4 \<noteq> p" by simp
  have fresh: "\<exists>p' st'. p' \<noteq> p \<and>
            makeRequest rt ?st4 url opts = (Inr p', st', sanitizeBody rt opts) \<and>
            trace st' = trace ?st4
                        @ [Fetch p' (httpMethod (sanitizeBody rt opts)) url (body (sanitizeBody rt opts))]"
    using ne by (simp add: makeRequest_fresh[OF url a4])
  from second one a3 fresh show ?thesis by blast
qed

theorem in_flight_request_is_shared_witness:
  "makeRequest plainRuntime (run plainRuntime newClient []) STATUS GET
     = (Inr 0, fst (snd (makeRequest plainRuntime newClient STATUS GET)), GET) \<and>
   Settles 0 \<notin> set [Call HEALTH GET] \<and>
   \<not> list_ex (callsKey plainRuntime (getRequestKey plainRuntime STATUS GET)) [] \<and>
   makeRequest plainRuntime
      (run plainRuntime (fst (snd (makeRequest plainRuntime newClient STATUS GET))) [Call HEALTH GET])
      STATUS GET
     = (Inr 0,
        run plainRuntime (fst (snd (makeRequest plainRuntime newClient STATUS GET))) [Call HEALTH GET],
        GET) \<and>
   fetchCount 0 (trace (run plainRuntime (fst (snd (makeRequest plainRuntime newClient STATUS GET)))
                          [Call HEALTH GET])) = 1 \<and>
   activeRequests
      (settle (run plainRuntime (fst (snd (makeRequest plainRuntime newClient STATUS GET)))
                 [Call HEALTH GET]) 0)
      (getRequestKey plainRuntime STATUS GET) = None"
proof -
  let ?st1 = "fst (snd (makeRequest plainRuntime newClient STATUS GET))"
  have first: "makeRequest plainRuntime (run plainRuntime newClient []) STATUS GET = (Inr 0, ?st1, GET)"
    by (simp add: run_def makeRequest_def newClient_def STATUS_def GET_def sanitizeBody_def Let_def)
  have pending: "Settles 0 \<notin> set [Call HEALTH GET]" by simp
  have nocall: "\<not> list_ex (callsKey plainRuntime (getRequestKey plainRuntime STATUS GET)) []" by simp
  from in_flight_request_is_shared[OF first pending nocall] first pending nocall
  show ?thesis by blast
qed
subsection \<open>Requests made while nothing is in flight\<close>

lemma quiet_newClient: "quiet newClient"
  by (simp add: quiet_def newClient_def)

lemma sanitizeBody_no_body: "body opts = None \<Longrightarrow> sanitizeBody rt opts = opts"
  by (simp add: sanitizeBody_def)

lemma awaitRequest_quiet:
  assumes q: "quiet st" and url: "url \<noteq> []"
    and settles: "requestPromise rt (net (nextPromise st)) = Got outcome"
  shows "awaitRequest rt net st url opts =
         (Got outcome,
          st\<lparr>nextPromise := Suc (nextPromise st),
             trace := trace st @ [Fetch (nextPromise st) (httpMethod (sanitizeBody rt opts)) url
                                    (body (sanitizeBody rt opts))]\<rparr>,
          sanitizeBody rt opts)"
proof -
  from q have a: "activeRequests st = Map.empty" and r: "requestKeys st = Map.empty"
    by (simp_all add: quiet_def)
  show ?thesis
    by (cases st) (use a r url settles in \<open>simp add: awaitRequest_def makeRequest_def Let_def settle_def\<close>)
qed

lemma awaitRequest_quiet_never:
  assumes q: "quiet st" and url: "url \<noteq> []"
    and never: "requestPromise rt (net (nextPromise st)) = Never"
  shows "fst (awaitRequest rt net st url opts) = Never"
    and "trace (fst (snd (awaitRequest rt net st url opts)))
         = trace st @ [Fetch (nextPromise st) (httpMethod (sanitizeBody rt opts)) url
                         (body (sanitizeBody rt opts))]"
proof -
  from q have a: "activeRequests st = Map.empty"
    by (simp_all add: quiet_def)
  show "fst (awaitRequest rt net st url opts) = Never"
    using a url never by (simp add: awaitRequest_def makeRequest_def Let_def)
  show "trace (fst (snd (awaitRequest rt net st url opts)))
         = trace st @ [Fetch (nextPromise st) (httpMethod (sanitizeBody rt opts)) url
                         (body (sanitizeBody rt opts))]"
    using a url never by (simp add: awaitRequest_def makeRequest_def Let_def)
qed

lemma awaitRequest_quiet_GET:
  "quiet st \<Longrightarrow> url \<noteq> [] \<Longrightarrow> requestPromise rt (net (nextPromise st)) = Got outcome \<Longrightarrow>
   awaitRequest rt net st url \<lparr>httpMethod = m, body = None\<rparr> =
     (Got outcome, afterFetch m url st, \<lparr>httpMethod = m, body = None\<rparr>)"
  by (simp add: awaitRequest_quiet sanitizeBody_no_body afterFetch_def)

lemma quiet_afterFetch: "quiet st \<Longrightarrow> quiet (afterFetch m url st)"
  by (simp add: quiet_def afterFetch_def)

lemma nextPromise_afterFetch: "nextPromise (afterFetch m url st) = Suc (nextPromise st)"
  by (simp add: afterFetch_def)

lemma fetches_afterFetch: "fetches (trace (afterFetch m url st)) = fetches (trace st) @ [(m, url)]"
  by (simp add: afterFetch_def fetches_append)

lemma delays_afterFetch: "delays (trace (afterFetch m url st)) = delays (trace st)"
  by (simp add: afterFetch_def delays_append)

subsection \<open>Logging in the catch blocks\<close>

text \<open>
  The object logged by the \<^verbatim>\<open>catch\<close> block of an operation holds the message and the status
  of the error; logging it does not throw. The object logged by \<^verbatim>\<open>startScraping\<close> also holds
  the caller's \<^verbatim>\<open>date\<close>.
\<close>

lemma serialisable_statusValue: "serialisable (statusValue e)"
  by (simp add: statusValue_def split: option.splits)

lemma safeLog_report: "safeLog rt (JObj [(k, JStr m), (k', statusValue e)] None) = None"
  by (simp add: safeLog_def serialisable_statusValue)

lemma safeLog_production: "IS_PRODUCTION rt \<Longrightarrow> safeLog rt v = None"
  by (simp add: safeLog_def)

lemma safeLog_serialisable: "serialisable v \<Longrightarrow> safeLog rt v = None"
  by (simp add: safeLog_def)

lemma catching_logged:
  assumes "\<And>e. safeLog rt (logged e) = None"
  shows "catching rt logged handler tried =
         (case tried of
            (Never, st') \<Rightarrow> (Never, st')
          | (Got (Inr r), st') \<Rightarrow> (Got (Inr r), st')
          | (Got (Inl e), st') \<Rightarrow> (Got (Inr (handler e)), st'))"
  by (simp add: catching_def assms split: prod.splits awaited.splits sum.splits)

lemma getScrapingStatus_catch:
  "getScrapingStatus rt net st =
     (case getScrapingStatusTry rt net st of
        (Never, st') \<Rightarrow> (Never, st')
      | (Got (Inr r), st') \<Rightarrow> (Got (Inr r), st')
      | (Got (Inl e), st') \<Rightarrow>
          (Got (Inr ((failure e)\<lparr>isRunning := Some False, progress := Some (Fin 0)\<rparr>)), st'))"
  unfolding getScrapingStatus_def by (rule catching_logged) (rule safeLog_report)

lemma getResults_catch:
  "getResults rt net st =
     (case getResultsTry rt net st of
        (Never, st') \<Rightarrow> (Never, st')
      | (Got (Inr r), st') \<Rightarrow> (Got (Inr r), st')
      | (Got (Inl e), st') \<Rightarrow> (Got (Inr (failure e)), st'))"
  unfolding getResults_def by (rule catching_logged) (rule safeLog_report)

lemma stopScraping_catch:
  "stopScraping rt net st =
     (case stopScrapingTry rt net st of
        (Never, st') \<Rightarrow> (Never, st')
      | (Got (Inr r), st') \<Rightarrow> (Got (Inr r), st')
      | (Got (Inl e), st') \<Rightarrow> (Got (Inr (failure e)), st'))"
  unfolding stopScraping_def by (rule catching_logged) (rule safeLog_report)

lemma checkHealth_catch:
  "checkHealth rt net st =
     (case checkHealthTry rt net st of
        (Never, st') \<Rightarrow> (Never, st')
      | (Got (Inr r), st') \<Rightarrow> (Got (Inr r), st')
      | (Got (Inl e), st') \<Rightarrow> (Got (Inr (failure e)), st'))"
  unfolding checkHealth_def by (rule catching_logged) (rule safeLog_report)

lemma startScraping_catch:
  assumes "IS_PRODUCTION rt \<or> serialisable date"
  shows "startScraping rt today net st date =
     (case startScrapingTry rt today net st date of
        (Never, st') \<Rightarrow> (Never, st')
      | (Got (Inr r), st') \<Rightarrow> (Got (Inr r), st')
      | (Got (Inl e), st') \<Rightarrow> (Got (Inr (failure e)), st'))"
  unfolding startScraping_def
  by (rule catching_logged) (use assms in \<open>auto simp: safeLog_def serialisable_statusValue\<close>)

subsection \<open>The status request and the results request\<close>

lemma getScrapingStatus_quiet:
  assumes "quiet st" and "requestPromise rt (net (nextPromise st)) \<noteq> Never"
  shows "getScrapingStatus rt net st
         = (snapshot rt (net (nextPromise st)), afterFetch (Some ''GET'') STATUS st)"
proof -
  have url: "STATUS \<noteq> []" by (simp add: STATUS_def)
  have n0: "nextPromise newClient = 0" by (simp add: newClient_def)
  from assms(2) obtain outcome where o: "requestPromise rt (net (nextPromise st)) = Got outcome"
    by (cases "requestPromise rt (net (nextPromise st))") auto
  have a1: "awaitRequest rt net st STATUS \<lparr>httpMethod = Some ''GET'', body = None\<rparr>
            = (Got outcome, afterFetch (Some ''GET'') STATUS st, \<lparr>httpMethod = Some ''GET'', body = None\<rparr>)"
    using assms(1) url o by (simp add: awaitRequest_quiet_GET)
  have a2: "awaitRequest rt (\<lambda>p. net (nextPromise st)) newClient STATUS \<lparr>httpMethod = Some ''GET'', body = None\<rparr>
            = (Got outcome, afterFetch (Some ''GET'') STATUS newClient, \<lparr>httpMethod = Some ''GET'', body = None\<rparr>)"
    using quiet_newClient url o by (simp add: awaitRequest_quiet_GET)
  show ?thesis
    unfolding snapshot_def getScrapingStatus_catch getScrapingStatusTry_def
    by (simp add: a1 a2 split: sum.splits)
qed

lemma getScrapingStatus_never:
  assumes "quiet st" and "requestPromise rt (net (nextPromise st)) = Never"
  shows "fst (getScrapingStatus rt net st) = Never"
proof -
  have url: "STATUS \<noteq> []" by (simp add: STATUS_def)
  have "fst (awaitRequest rt net st STATUS \<lparr>httpMethod = Some ''GET'', body = None\<rparr>) = Never"
    using assms url by (simp add: awaitRequest_quiet_never(1))
  then show ?thesis
    unfolding getScrapingStatus_catch getScrapingStatusTry_def
    by (auto split: prod.splits awaited.splits sum.splits)
qed


text \<open>The snapshot is pending exactly when the request is.\<close>

lemma snapshot_never: "snapshot rt fr = Never \<longleftrightarrow> requestPromise rt fr = Never"
proof -
  have url: "STATUS \<noteq> []" by (simp add: STATUS_def)
  show ?thesis
  proof (cases "requestPromise rt fr")
    case Never
    then have "requestPromise rt ((\<lambda>p. fr) (nextPromise newClient)) = Never" by simp
    with quiet_newClient have "fst (getScrapingStatus rt (\<lambda>p. fr) newClient) = Never"
      by (simp add: getScrapingStatus_never)
    with Never show ?thesis
      by (simp add: snapshot_def)
  next
    case (Got outcome)
    then have o: "requestPromise rt ((\<lambda>p. fr) (nextPromise newClient)) = Got outcome" by simp
    have "awaitRequest rt (\<lambda>p. fr) newClient STATUS \<lparr>httpMethod = Some ''GET'', body = None\<rparr>
            = (Got outcome, afterFetch (Some ''GET'') STATUS newClient, \<lparr>httpMethod = Some ''GET'', body = None\<rparr>)"
      using quiet_newClient url o by (simp add: awaitRequest_quiet_GET)
    then show ?thesis using Got
      unfolding snapshot_def getScrapingStatus_catch getScrapingStatusTry_def
      by (simp split: sum.splits)
  qed
qed

text \<open>\<^verbatim>\<open>getScrapingStatus\<close> and \<^verbatim>\<open>getResults\<close> do not reject.\<close>

lemma getScrapingStatus_no_reject: "fst (getScrapingStatus rt net st) \<noteq> Got (Inl e)"
  unfolding getScrapingStatus_catch by (simp split: prod.splits awaited.splits sum.splits)

lemma getResults_no_reject: "fst (getResults rt net st) \<noteq> Got (Inl e)"
  unfolding getResults_catch by (simp split: prod.splits awaited.splits sum.splits)

lemma snapshot_no_reject: "snapshot rt fr \<noteq> Got (Inl e)"
  by (simp add: snapshot_def getScrapingStatus_no_reject)

lemma resultsAnswer_no_reject: "resultsAnswer rt fr \<noteq> Got (Inl e)"
  by (simp add: resultsAnswer_def getResults_no_reject)

subsection \<open>Requests that settle\<close>

lemma awaitRequest_settles:
  assumes "\<forall>p. requestPromise rt (net p) \<noteq> Never"
  shows "fst (awaitRequest rt net st url opts) \<noteq> Never"
  using assms
  by (auto simp: awaitRequest_def split: prod.splits sum.splits awaited.splits)

lemma makeRequestWithRetry_settles:
  assumes "\<forall>p. requestPromise rt (net p) \<noteq> Never"
  shows "fst (makeRequestWithRetry rt net st url opts attempt) \<noteq> Never"
  using assms
proof (induction rt net st url opts attempt rule: makeRequestWithRetry.induct)
  case (1 rt net st url opts attempt)
  obtain r st1 opts1 where aw: "awaitRequest rt net st url opts = (r, st1, opts1)"
    by (cases "awaitRequest rt net st url opts") auto
  from awaitRequest_settles[OF "1.prems", of st url opts] aw have "r \<noteq> Never" by simp
  then obtain outcome where r: "r = Got outcome" by (cases r) auto
  show ?case
  proof (cases outcome)
    case (Inr v)
    with aw r show ?thesis by (subst makeRequestWithRetry.simps) simp
  next
    case (Inl e)
    show ?thesis
    proof (cases "attempt \<ge> MAX_RETRY_ATTEMPTS \<or> \<not> shouldRetry e")
      case True
      with aw r Inl show ?thesis by (subst makeRequestWithRetry.simps) auto
    next
      case False
      then have c1: "\<not> MAX_RETRY_ATTEMPTS \<le> attempt" and c2: "\<not> \<not> shouldRetry e" by auto
      from "1.IH"[OF aw[symmetric] r Inl refl c1 c2 "1.prems"] False aw r Inl
      show ?thesis by (subst makeRequestWithRetry.simps) auto
    qed
  qed
qed

subsection \<open>The five operations\<close>

lemma failed_failure: "failed (failure e)"
  by (simp add: failed_def failure_def emptyResult_def)

lemma failure_not_success: "\<not> success (failure e)"
  by (simp add: failure_def emptyResult_def)

lemma failure_status_default: "exn_status e = None \<Longrightarrow> status (failure e) = Some 0"
  by (simp add: failure_def statusOrZero_def)

lemma failure_status_ApiError: "status (failure (ApiError m s d)) = Some s"
  by (simp add: failure_def statusOrZero_def)

lemma failed_status_failure:
  "failed ((failure e)\<lparr>isRunning := Some False, progress := Some (Fin 0)\<rparr>)"
  by (simp add: failed_def failure_def emptyResult_def)

text \<open>
  What holds of the five operations: an operation whose requests settle settles itself,
  and four of them never reject; when they resolve it is with \<^verbatim>\<open>success: true\<close> or with the
  failure object of the error caught.
\<close>

lemma checkHealth_outcome:
  "fst (checkHealth rt net st) = Never \<or>
   (\<exists>r. fst (checkHealth rt net st) = Got (Inr r) \<and> (success r \<or> (\<exists>e. r = failure e)))"
  unfolding checkHealth_catch checkHealthTry_def
  by (auto simp: emptyResult_def split: prod.splits sum.splits awaited.splits option.splits)

lemma getScrapingStatus_outcome:
  "fst (getScrapingStatus rt net st) = Never \<or>
   (\<exists>r. fst (getScrapingStatus rt net st) = Got (Inr r) \<and>
        (success r \<or> (\<exists>e. r = (failure e)\<lparr>isRunning := Some False, progress := Some (Fin 0)\<rparr>)))"
  unfolding getScrapingStatus_catch getScrapingStatusTry_def
  by (auto simp: emptyResult_def split: prod.splits sum.splits awaited.splits option.splits)

lemma getResults_outcome:
  "fst (getResults rt net st) = Never \<or>
   (\<exists>r. fst (getResults rt net st) = Got (Inr r) \<and> (success r \<or> (\<exists>e. r = failure e)))"
  unfolding getResults_catch getResultsTry_def
  by (auto simp: emptyResult_def split: prod.splits sum.splits awaited.splits option.splits if_splits)

lemma stopScraping_outcome:
  "fst (stopScraping rt net st) = Never \<or>
   (\<exists>r. fst (stopScraping rt net st) = Got (Inr r) \<and> (success r \<or> (\<exists>e. r = failure e)))"
  unfolding stopScraping_catch stopScrapingTry_def
  by (auto simp: emptyResult_def split: prod.splits sum.splits awaited.splits option.splits)

lemma startScraping_outcome:
  assumes "IS_PRODUCTION rt \<or> serialisable date"
  shows "fst (startScraping rt today net st date) = Never \<or>
   (\<exists>r. fst (startScraping rt today net st date) = Got (Inr r) \<and> (success r \<or> (\<exists>e. r = failure e)))"
  unfolding startScraping_catch[OF assms] startScrapingTry_def
  by (auto simp: emptyResult_def
           split: prod.splits sum.splits awaited.splits option.splits jsvalue.splits if_splits)



lemma stopScraping_settles:
  assumes "\<forall>p. requestPromise rt (net p) \<noteq> Never"
  shows "fst (stopScraping rt net st) \<noteq> Never"
  using awaitRequest_settles[OF assms, of st STOP "\<lparr>httpMethod = Some ''POST'', body = None\<rparr>"]
  unfolding stopScraping_catch stopScrapingTry_def
  by (auto split: prod.splits sum.splits awaited.splits option.splits)

lemma checkHealth_settles:
  assumes "\<forall>p. requestPromise rt (net p) \<noteq> Never"
  shows "fst (checkHealth rt net st) \<noteq> Never"
  using makeRequestWithRetry_settles[OF assms, of st HEALTH "\<lparr>httpMethod = Some ''GET'', body = None\<rparr>" 1]
  unfolding checkHealth_catch checkHealthTry_def
  by (auto split: prod.splits sum.splits awaited.splits option.splits)

lemma startScraping_settles:
  assumes "\<forall>p. requestPromise rt (net p) \<noteq> Never"
  shows "fst (startScraping rt today net st date) \<noteq> Never"
proof -
  have "fst (startScrapingTry rt today net st date) \<noteq> Never"
    using makeRequestWithRetry_settles[OF assms, of st SCRAPE]
    unfolding startScrapingTry_def
    by (auto split: prod.splits sum.splits awaited.splits option.splits jsvalue.splits if_splits)
       (metis fst_conv)
  then show ?thesis
    unfolding startScraping_def catching_def
    by (auto split: prod.splits sum.splits awaited.splits option.splits)
qed

text \<open>
  A body that stalls after the headers have arrived leaves the request, and the operation
  that awaits it, pending for ever: the request timer was cleared when \<^verbatim>\<open>fetch\<close> resolved.
\<close>

lemma stalled_body_never_settles:
  "requestPromise rt stalledBody = Never"
  by (simp add: requestPromise_def stalledBody_def)

lemma stalled_status_never_resolves:
  "fst (getScrapingStatus rt (\<lambda>p. stalledBody) newClient) = Never"
  using getScrapingStatus_never[of newClient rt "\<lambda>p. stalledBody"]
  by (simp add: quiet_newClient stalled_body_never_settles)

text \<open>
  C10. \<^verbatim>\<open>startScraping\<close> rejects when it is passed a date that \<^verbatim>\<open>JSON.stringify\<close> cannot write
  (a BigInt, or an array or object holding one) in a build that is not a production
  build: the date is refused with \<^verbatim>\<open>Date is required\<close>, and the \<^verbatim>\<open>catch\<close> block, which logs
  the caller's date, throws the \<^verbatim>\<open>TypeError\<close> of \<^verbatim>\<open>JSON.stringify\<close>. No request is made.
\<close>

theorem startScraping_rejects_unloggable_date:
  assumes "\<not> IS_PRODUCTION rt" and "\<not> serialisable date"
  shows "startScraping rt today net st date = (Got (Inl (stringifyFailure rt)), st)"
proof -
  from assms(2) have nostr: "\<And>s. sanitizeInput rt date \<noteq> JStr s"
    by (cases date) auto
  then have t: "startScrapingTry rt today net st date
                = (Got (Inl (ApiError ''Date is required'' 400 JNull)), st)"
    by (simp add: startScrapingTry_def split: jsvalue.splits)
  show ?thesis
    using assms by (simp add: startScraping_def catching_def t safeLog_def)
qed

theorem startScraping_rejects_unloggable_date_witness:
  "\<not> IS_PRODUCTION plainRuntime \<and> \<not> serialisable (JBigInt 10) \<and>
   startScraping plainRuntime 1700000000000 accepting newClient (JBigInt 10)
     = (Got (Inl (JsError ''TypeError'' ''Do not know how to serialize a BigInt'')), newClient)"
  using startScraping_rejects_unloggable_date[of plainRuntime "JBigInt 10" 1700000000000 accepting newClient]
  by (simp add: plainRuntime_def)

subsection \<open>The status snapshot\<close>

lemma clamp_range:
  "\<exists>x. Math_max (Fin 0) (Math_min (Fin 100) (orZero n)) = Fin x \<and> 0 \<le> x \<and> x \<le> 100"
  by (cases n) (auto simp: Math_max_def Math_min_def orZero_def)

lemma has_prop_object:
  "has_prop k v \<Longrightarrow> truthy v \<and> typeof_object v"
  by (cases v) auto

lemma get_prop_absent: "\<not> has_prop k v \<Longrightarrow> get_prop v k = JUndefined"
proof (induction k v rule: has_prop.induct)
  case (1 k kvs proto)
  from "1.prems" have nk: "k \<notin> fst ` set kvs" by (auto split: if_splits)
  then have m: "map_of kvs k = None" by (simp add: map_of_eq_None_iff)
  show ?case
  proof (cases proto)
    case None
    with m show ?thesis by simp
  next
    case (Some p)
    with "1.prems" nk have "\<not> has_prop k p" by simp
    with "1.IH"[OF nk Some] m Some show ?thesis by simp
  qed
qed simp_all

lemma validateResponse_is_running:
  "validateResponse response [''is_running''] =
     (if has_prop ''is_running'' response then Inr True
      else Inl (ApiError (if truthy response \<and> typeof_object response
                          then ''Missing required field: is_running''
                          else ''Invalid response format'') 0 JNull))"
  using has_prop_object[of "''is_running''" response]
  by (auto simp: validateResponse_def)

lemma requestPromise_decodesTo:
  "decodesTo fr v \<Longrightarrow> requestPromise rt fr = Got (Inr (sanitizeInput rt v))"
  by (cases fr) (auto simp: decodesTo_def requestPromise_def split: option.splits)

text \<open>
  Own fields survive \<^verbatim>\<open>sanitizeInput\<close>, except \<^verbatim>\<open>__proto__\<close>; a decoded value without the fields
  \<open>k\<close> and \<^verbatim>\<open>__proto__\<close> is sanitised to a value on which \<^verbatim>\<open>k in response\<close> is false.
\<close>

lemma has_prop_sanitized_own:
  "k \<in> set (fieldNames v) \<Longrightarrow> k \<noteq> ''__proto__'' \<Longrightarrow> has_prop k (sanitizeInput rt v)"
  by (cases v) (auto simp: image_iff)

lemma has_prop_sanitized_absent:
  "k \<notin> set (fieldNames v) \<Longrightarrow> ''__proto__'' \<notin> set (fieldNames v) \<Longrightarrow>
   \<not> has_prop k (sanitizeInput rt v)"
proof (cases v)
  case (JObj kvs proto)
  assume k: "k \<notin> set (fieldNames v)" and p: "''__proto__'' \<notin> set (fieldNames v)"
  from p JObj have "map_of (map (\<lambda>kv. (fst kv, sanitizeInput rt (snd kv))) kvs) ''__proto__'' = None"
    by (simp add: map_of_eq_None_iff image_iff)
  then have "installedPrototype (map (\<lambda>kv. (fst kv, sanitizeInput rt (snd kv))) kvs) = None"
    by (simp add: installedPrototype_def)
  with k JObj show ?thesis by (auto simp: image_iff)
qed simp_all

lemma getScrapingStatus_decoded:
  assumes q: "quiet st" and d: "decodesTo (net (nextPromise st)) decoded"
  shows "getScrapingStatusTry rt net st =
         (case validateResponse (sanitizeInput rt decoded) [''is_running''] of
            Inl e \<Rightarrow> (Got (Inl e), afterFetch (Some ''GET'') STATUS st)
          | Inr ok \<Rightarrow>
              (case Number rt (get_prop (sanitizeInput rt decoded) ''progress'') of
                 Inl e \<Rightarrow> (Got (Inl e), afterFetch (Some ''GET'') STATUS st)
               | Inr n \<Rightarrow>
                   (Got (Inr (emptyResult\<lparr>
                           success := True,
                           data := sanitizeInput rt decoded,
                           isRunning := Some (truthy (get_prop (sanitizeInput rt decoded) ''is_running'')),
                           progress := Some (Math_max (Fin 0) (Math_min (Fin 100) (orZero n))),
                           message := js_or (sanitizeInput rt (get_prop (sanitizeInput rt decoded) ''message''))
                                            (JStr ''Status retrieved successfully'')\<rparr>)),
                    afterFetch (Some ''GET'') STATUS st)))"
proof -
  have url: "STATUS \<noteq> []" by (simp add: STATUS_def)
  have o: "requestPromise rt (net (nextPromise st)) = Got (Inr (sanitizeInput rt decoded))"
    using d by (rule requestPromise_decodesTo)
  have "awaitRequest rt net st STATUS \<lparr>httpMethod = Some ''GET'', body = None\<rparr>
        = (Got (Inr (sanitizeInput rt decoded)), afterFetch (Some ''GET'') STATUS st,
           \<lparr>httpMethod = Some ''GET'', body = None\<rparr>)"
    using q url o by (simp add: awaitRequest_quiet_GET)
  then show ?thesis by (simp add: getScrapingStatusTry_def)
qed

text \<open>
  C8 (amended). For every decoded status response, with \<open>response\<close> its sanitised value:
  when \<^verbatim>\<open>'is_running' in response\<close> is false, which is the case of every decoded value that
  has neither a field \<^verbatim>\<open>is_running\<close> nor a field \<^verbatim>\<open>__proto__\<close>, \<^verbatim>\<open>getScrapingStatus\<close> resolves with
  a failure of status 0 (missing field or invalid format), \<^verbatim>\<open>isRunning: false\<close> and
  \<^verbatim>\<open>progress: 0\<close>; in every case the progress it reports is a number in [0, 100]; when
  \<^verbatim>\<open>is_running\<close> is a field of the decoded object and \<^verbatim>\<open>Number(progress)\<close> does not throw, the
  progress is \<^verbatim>\<open>Number(progress) || 0\<close> clamped into [0, 100] and the message is the
  sanitised \<^verbatim>\<open>message\<close> field, or the text \<^verbatim>\<open>'Status retrieved successfully'\<close>, not the empty
  string, when that is absent or falsy.
\<close>

theorem getScrapingStatus_snapshot:
  assumes q: "quiet st" and d: "decodesTo (net (nextPromise st)) decoded"
  shows "(\<not> has_prop ''is_running'' (sanitizeInput rt decoded) \<longrightarrow>
            getScrapingStatus rt net st =
              (Got (Inr ((failure (ApiError (if truthy (sanitizeInput rt decoded)
                                                \<and> typeof_object (sanitizeInput rt decoded)
                                             then ''Missing required field: is_running''
                                             else ''Invalid response format'') 0 JNull))
                           \<lparr>isRunning := Some False, progress := Some (Fin 0)\<rparr>)),
               afterFetch (Some ''GET'') STATUS st)) \<and>
         (''is_running'' \<notin> set (fieldNames decoded) \<and> ''__proto__'' \<notin> set (fieldNames decoded) \<longrightarrow>
            (\<exists>m. getScrapingStatus rt net st =
                   (Got (Inr ((failure (ApiError m 0 JNull))
                                \<lparr>isRunning := Some False, progress := Some (Fin 0)\<rparr>)),
                    afterFetch (Some ''GET'') STATUS st))) \<and>
         (\<exists>r x. fst (getScrapingStatus rt net st) = Got (Inr r) \<and>
                 progress r = Some (Fin x) \<and> 0 \<le> x \<and> x \<le> 100) \<and>
         ((''is_running'' \<in> set (fieldNames decoded) \<or> has_prop ''is_running'' (sanitizeInput rt decoded)) \<and>
          Number rt (get_prop (sanitizeInput rt decoded) ''progress'') = Inr n \<longrightarrow>
            getScrapingStatus rt net st =
              (Got (Inr (emptyResult\<lparr>success := True, data := sanitizeInput rt decoded,
                  isRunning := Some (truthy (get_prop (sanitizeInput rt decoded) ''is_running'')),
                  progress := Some (Math_max (Fin 0) (Math_min (Fin 100) (orZero n))),
                  message := (if truthy (sanitizeInput rt (get_prop (sanitizeInput rt decoded) ''message''))
                              then sanitizeInput rt (get_prop (sanitizeInput rt decoded) ''message'')
                              else JStr ''Status retrieved successfully'')\<rparr>)),
               afterFetch (Some ''GET'') STATUS st)) \<and>
         (has_prop ''is_running'' (sanitizeInput rt decoded) \<and>
          Number rt (get_prop (sanitizeInput rt decoded) ''progress'') = Inr n \<and>
          \<not> has_prop ''message'' (sanitizeInput rt decoded) \<longrightarrow>
            (\<exists>r. fst (getScrapingStatus rt net st) = Got (Inr r) \<and>
                  message r = JStr ''Status retrieved successfully''))"
proof -
  let ?response = "sanitizeInput rt decoded"
  let ?st' = "afterFetch (Some ''GET'') STATUS st"
  note tr = getScrapingStatus_decoded[where net=net and st=st and decoded=decoded and rt=rt, OF q d]
  have absent: "\<not> has_prop ''is_running'' ?response \<longrightarrow>
            getScrapingStatus rt net st =
              (Got (Inr ((failure (ApiError (if truthy ?response \<and> typeof_object ?response
                                             then ''Missing required field: is_running''
                                             else ''Invalid response format'') 0 JNull))
                           \<lparr>isRunning := Some False, progress := Some (Fin 0)\<rparr>)), ?st')"
    by (simp add: getScrapingStatus_catch tr validateResponse_is_running)
  have lacking: "''is_running'' \<notin> set (fieldNames decoded) \<and> ''__proto__'' \<notin> set (fieldNames decoded) \<longrightarrow>
            (\<exists>m. getScrapingStatus rt net st =
                   (Got (Inr ((failure (ApiError m 0 JNull))
                                \<lparr>isRunning := Some False, progress := Some (Fin 0)\<rparr>)), ?st'))"
    using absent has_prop_sanitized_absent[of "''is_running''" decoded rt] by blast
  have own: "''is_running'' \<in> set (fieldNames decoded) \<Longrightarrow> has_prop ''is_running'' ?response"
    by (rule has_prop_sanitized_own) simp_all
  have present: "(''is_running'' \<in> set (fieldNames decoded) \<or> has_prop ''is_running'' ?response) \<and>
          Number rt (get_prop ?response ''progress'') = Inr n \<longrightarrow>
            getScrapingStatus rt net st =
              (Got (Inr (emptyResult\<lparr>success := True, data := ?response,
                  isRunning := Some (truthy (get_prop ?response ''is_running'')),
                  progress := Some (Math_max (Fin 0) (Math_min (Fin 100) (orZero n))),
                  message := (if truthy (sanitizeInput rt (get_prop ?response ''message''))
                              then sanitizeInput rt (get_prop ?response ''message'')
                              else JStr ''Status retrieved successfully'')\<rparr>)), ?st')"
    using own by (auto simp: getScrapingStatus_catch tr validateResponse_is_running js_or_def)
  have range: "\<exists>r x. fst (getScrapingStatus rt net st) = Got (Inr r) \<and>
                 progress r = Some (Fin x) \<and> 0 \<le> x \<and> x \<le> 100"
  proof (cases "has_prop ''is_running'' ?response")
    case False
    with absent show ?thesis by (simp add: failure_def emptyResult_def)
  next
    case True
    show ?thesis
    proof (cases "Number rt (get_prop ?response ''progress'')")
      case (Inl e)
      with True show ?thesis
        by (simp add: getScrapingStatus_catch tr validateResponse_is_running failure_def emptyResult_def)
    next
      case (Inr m)
      with True show ?thesis
        using clamp_range[of m]
        by (simp add: getScrapingStatus_catch tr validateResponse_is_running emptyResult_def)
    qed
  qed
  have msg: "has_prop ''is_running'' ?response \<and> Number rt (get_prop ?response ''progress'') = Inr n \<and>
          \<not> has_prop ''message'' ?response \<longrightarrow>
            (\<exists>r. fst (getScrapingStatus rt net st) = Got (Inr r) \<and>
                  message r = JStr ''Status retrieved successfully'')"
    using present by (auto simp: get_prop_absent emptyResult_def)
  from absent lacking range present msg show ?thesis by blast
qed

theorem getScrapingStatus_snapshot_witness:
  "quiet newClient \<and>
   decodesTo (jsonResponse 200 (JObj [(''is_running'', JBool True), (''progress'', JNum (Fin 150))] None))
     (JObj [(''is_running'', JBool True), (''progress'', JNum (Fin 150))] None) \<and>
   getScrapingStatus plainRuntime
      (\<lambda>p. jsonResponse 200 (JObj [(''is_running'', JBool True), (''progress'', JNum (Fin 150))] None))
      newClient
     = (Got (Inr (emptyResult\<lparr>success := True,
           data := JObj [(''is_running'', JBool True), (''progress'', JNum (Fin 150))] None,
           isRunning := Some True, progress := Some (Fin 100),
           message := JStr ''Status retrieved successfully''\<rparr>)),
        afterFetch (Some ''GET'') STATUS newClient) \<and>
   getScrapingStatus plainRuntime (\<lambda>p. jsonResponse 200 (JObj [(''progress'', JNum (Fin 50))] None))
      newClient
     = (Got (Inr ((failure (ApiError ''Missing required field: is_running'' 0 JNull))
                    \<lparr>isRunning := Some False, progress := Some (Fin 0)\<rparr>)),
        afterFetch (Some ''GET'') STATUS newClient)"
proof -
  let ?decoded = "JObj [(''is_running'', JBool True), (''progress'', JNum (Fin 150))] None"
  let ?lacking = "JObj [(''progress'', JNum (Fin 50))] None"
  have d: "decodesTo ((\<lambda>p. jsonResponse 200 ?decoded) (nextPromise newClient)) ?decoded"
    by (simp add: decodesTo_def jsonResponse_def)
  have d': "decodesTo ((\<lambda>p. jsonResponse 200 ?lacking) (nextPromise newClient)) ?lacking"
    by (simp add: decodesTo_def jsonResponse_def)
  have s: "sanitizeInput plainRuntime ?decoded = ?decoded"
    by (simp add: installedPrototype_def)
  have s': "sanitizeInput plainRuntime ?lacking = ?lacking"
    by (simp add: installedPrototype_def)
  have s0: "sanitizeInput plainRuntime JUndefined = JUndefined" by simp
  from getScrapingStatus_snapshot[of newClient "\<lambda>p. jsonResponse 200 ?decoded" ?decoded plainRuntime "Fin 150",
         OF quiet_newClient d]
       getScrapingStatus_snapshot[of newClient "\<lambda>p. jsonResponse 200 ?lacking" ?lacking plainRuntime NaN,
         OF quiet_newClient d']
       d quiet_newClient
  show ?thesis
    by (simp add: s s' s0 Math_max_def Math_min_def orZero_def del: sanitizeInput.simps)
qed

theorem status_message_default_counterexample:
  "fst (getScrapingStatus plainRuntime
          (\<lambda>p. jsonResponse 200 (JObj [(''is_running'', JBool True)] None)) newClient)
   = Got (Inr (emptyResult\<lparr>success := True, data := JObj [(''is_running'', JBool True)] None,
                  isRunning := Some True, progress := Some (Fin 0),
                  message := JStr ''Status retrieved successfully''\<rparr>)) \<and>
   JStr ''Status retrieved successfully'' \<noteq> JStr []"
  by code_simp

text \<open>
  A decoded response whose only field is \<^verbatim>\<open>__proto__\<close>: \<^verbatim>\<open>sanitizeInput\<close> installs the sanitised
  value of that field as the prototype of the object it builds, \<^verbatim>\<open>'is_running' in response\<close>
  finds the field there, and the call succeeds.
\<close>

lemma inherited_is_running_is_accepted:
  "fst (getScrapingStatus plainRuntime
          (\<lambda>p. jsonResponse 200
                  (JObj [(''__proto__'', JObj [(''is_running'', JBool True),
                                                (''progress'', JNum (Fin 50))] None)] None))
          newClient)
   = Got (Inr (emptyResult\<lparr>success := True,
                  data := JObj [] (Some (JObj [(''is_running'', JBool True),
                                               (''progress'', JNum (Fin 50))] None)),
                  isRunning := Some True, progress := Some (Fin 50),
                  message := JStr ''Status retrieved successfully''\<rparr>))"
  by code_simp

subsection \<open>One run of poll\<close>

lemma quiet_trace_update: "quiet (st\<lparr>trace := t\<rparr>) = quiet st"
  by (simp add: quiet_def)

lemma quiet_schedule: "quiet (schedule ms st) = quiet st"
  by (simp add: quiet_def schedule_def)

lemma nextPromise_schedule: "nextPromise (schedule ms st) = nextPromise st"
  by (simp add: schedule_def)

lemma fetches_schedule: "fetches (trace (schedule ms st)) = fetches (trace st)"
  by (simp add: schedule_def fetches_append)

lemma delays_schedule: "delays (trace (schedule ms st)) = delays (trace st)"
  by (simp add: schedule_def delays_append)

lemma getScrapingStatus_gives_snapshot:
  assumes "quiet st" and "snapshot rt (net (nextPromise st)) = Got x"
  shows "getScrapingStatus rt net st = (Got x, afterFetch (Some ''GET'') STATUS st)"
proof -
  from assms(2) have "requestPromise rt (net (nextPromise st)) \<noteq> Never"
    using snapshot_never[of rt "net (nextPromise st)"] by simp
  with assms show ?thesis by (simp add: getScrapingStatus_quiet)
qed

text \<open>What the call of the callback does to the module state: nothing but a trace entry.\<close>

lemma callOnProgress_state:
  "\<exists>evs. snd (callOnProgress rt cb v st) = st\<lparr>trace := trace st @ evs\<rparr> \<and>
         fetches evs = [] \<and> delays evs = []"
proof (cases cb)
  case (Function f)
  then show ?thesis
    by (cases "f v") (auto simp: callOnProgress_def intro: exI[of _ "[Progress v]"])
qed (auto simp: callOnProgress_def intro: exI[of _ "[]"])

lemma callOnProgress_contained:
  "contained rt cb \<Longrightarrow> fst (callOnProgress rt cb v st) = None"
proof (cases cb)
  case (Function f)
  assume "contained rt cb"
  with Function have "case f v of None \<Rightarrow> True
                      | Some thrown \<Rightarrow> \<not> nullish thrown \<and> safeLog rt (get_prop thrown ''message'') = None"
    by (simp add: contained_def)
  with Function show ?thesis
    by (cases "f v") (auto simp: callOnProgress_def)
qed (auto simp: callOnProgress_def)

lemma callOnProgress_quiet:
  assumes "contained rt cb"
  shows "\<exists>st'. callOnProgress rt cb v st = (None, st') \<and> quiet st' = quiet st \<and>
               nextPromise st' = nextPromise st \<and> fetches (trace st') = fetches (trace st) \<and>
               delays (trace st') = delays (trace st)"
proof -
  from callOnProgress_state[of rt cb v st] obtain evs
    where s: "snd (callOnProgress rt cb v st) = st\<lparr>trace := trace st @ evs\<rparr>"
      and f: "fetches evs = []" and d: "delays evs = []"
    by blast
  from callOnProgress_contained[OF assms, of v st] s
  have "callOnProgress rt cb v st = (None, st\<lparr>trace := trace st @ evs\<rparr>)"
    by (cases "callOnProgress rt cb v st") simp
  with f d show ?thesis
    by (simp add: quiet_trace_update fetches_append delays_append)
qed


lemma poll_unbound:
  "pollCount < maxPolls \<Longrightarrow>
   poll rt net Unbound cb interval pollCount st =
     (Got (Resolve (emptyResult\<lparr>success := False,
                      error := JStr (if exn_message (propertyReadError rt JUndefined ''getScrapingStatus'') = []
                                     then ''Polling failed''
                                     else exn_message (propertyReadError rt JUndefined ''getScrapingStatus'')),
                      status := Some 0\<rparr>)), st)"
  by (simp add: poll_def pollTry_def)

lemma poll_status_failed:
  assumes "quiet st" and "pollCount < maxPolls"
    and "snapshot rt (net (nextPromise st)) = Got (Inr s)" and "\<not> success s"
  shows "poll rt net Bound cb interval pollCount st =
           (Got (Resolve (emptyResult\<lparr>success := False, error := error s, status := status s\<rparr>)),
            afterFetch (Some ''GET'') STATUS st)"
  using assms by (simp add: poll_def pollTry_def getScrapingStatus_gives_snapshot)

lemma poll_running:
  assumes q: "quiet st" and lt: "pollCount < maxPolls" and c: "contained rt cb"
    and r: "seenRunning rt (net (nextPromise st))"
  shows "\<exists>st'. poll rt net Bound cb interval pollCount st = (Got Schedule, st') \<and> quiet st' \<and>
               nextPromise st' = Suc (nextPromise st) \<and>
               fetches (trace st') = fetches (trace st) @ [(Some ''GET'', STATUS)] \<and>
               delays (trace st') = delays (trace st)"
proof -
  from r obtain s where s: "snapshot rt (net (nextPromise st)) = Got (Inr s)" and rs: "running s"
    by (auto simp: seenRunning_def split: awaited.splits sum.splits)
  let ?st1 = "afterFetch (Some ''GET'') STATUS st"
  from callOnProgress_quiet[OF c, of "progressData s" ?st1]
  obtain st2 where cbk: "callOnProgress rt cb (progressData s) ?st1 = (None, st2)"
    and q2: "quiet st2 = quiet ?st1" and n2: "nextPromise st2 = nextPromise ?st1"
    and f2: "fetches (trace st2) = fetches (trace ?st1)"
    and d2: "delays (trace st2) = delays (trace ?st1)"
    by blast
  have "poll rt net Bound cb interval pollCount st = (Got Schedule, schedule interval st2)"
    using q lt s rs cbk
    by (simp add: poll_def pollTry_def getScrapingStatus_gives_snapshot running_def)
  then show ?thesis
    using q q2 n2 f2 d2
    by (simp add: quiet_schedule quiet_afterFetch nextPromise_schedule nextPromise_afterFetch
          fetches_schedule fetches_afterFetch delays_schedule delays_afterFetch)
qed

lemma poll_job_error:
  assumes q: "quiet st" and lt: "pollCount < maxPolls" and c: "contained rt cb"
    and s: "snapshot rt (net (nextPromise st)) = Got (Inr s)"
    and ok: "success s" and stopped: "isRunning s = Some False"
    and err: "truthy (get_prop (data s) ''error'')"
  shows "\<exists>st'. poll rt net Bound cb interval pollCount st =
                 (Got (Resolve (emptyResult\<lparr>success := False,
                                  error := get_prop (data s) ''error'',
                                  message := get_prop (data s) ''message''\<rparr>)), st') \<and>
               fetches (trace st') = fetches (trace st) @ [(Some ''GET'', STATUS)] \<and>
               delays (trace st') = delays (trace st)"
proof -
  let ?st1 = "afterFetch (Some ''GET'') STATUS st"
  from callOnProgress_quiet[OF c, of "progressData s" ?st1]
  obtain st2 where cbk: "callOnProgress rt cb (progressData s) ?st1 = (None, st2)"
    and f2: "fetches (trace st2) = fetches (trace ?st1)"
    and d2: "delays (trace st2) = delays (trace ?st1)"
    by blast
  have "poll rt net Bound cb interval pollCount st =
          (Got (Resolve (emptyResult\<lparr>success := False,
                           error := get_prop (data s) ''error'',
                           message := get_prop (data s) ''message''\<rparr>)), st2)"
    using q lt s ok stopped err cbk
    by (simp add: poll_def pollTry_def getScrapingStatus_gives_snapshot)
  then show ?thesis
    using f2 d2 by (simp add: fetches_afterFetch delays_afterFetch)
qed

subsection \<open>The poll loop\<close>

lemma pollLoop_running_ticks:
  "quiet st \<Longrightarrow> contained rt cb \<Longrightarrow> pollCount + n \<le> maxPolls \<Longrightarrow>
   \<forall>i<n. seenRunning rt (net (nextPromise st + i)) \<Longrightarrow>
   \<exists>st'. pollLoop rt net Bound cb interval pollCount st
           = pollLoop rt net Bound cb interval (pollCount + n) st' \<and>
         quiet st' \<and> nextPromise st' = nextPromise st + n \<and>
         fetches (trace st') = fetches (trace st) @ replicate n (Some ''GET'', STATUS) \<and>
         delays (trace st') = delays (trace st)"
proof (induction n arbitrary: st pollCount)
  case 0
  then show ?case by auto
next
  case (Suc n)
  from Suc.prems have lt: "pollCount < maxPolls" by simp
  from Suc.prems have r0: "seenRunning rt (net (nextPromise st))"
    by (metis add.right_neutral zero_less_Suc)
  from poll_running[where rt=rt and net=net and st=st and cb=cb and interval=interval,
         OF Suc.prems(1) lt Suc.prems(2) r0]
  obtain st1 where p: "poll rt net Bound cb interval pollCount st = (Got Schedule, st1)"
    and q1: "quiet st1" and n1: "nextPromise st1 = Suc (nextPromise st)"
    and f1: "fetches (trace st1) = fetches (trace st) @ [(Some ''GET'', STATUS)]"
    and d1: "delays (trace st1) = delays (trace st)"
    by blast
  have step: "pollLoop rt net Bound cb interval pollCount st
              = pollLoop rt net Bound cb interval (Suc pollCount) st1"
    by (subst pollLoop.simps) (simp add: p)
  have le: "Suc pollCount + n \<le> maxPolls" using Suc.prems by simp
  have rest: "\<forall>i<n. seenRunning rt (net (nextPromise st1 + i))"
  proof (intro allI impI)
    fix i assume "i < n"
    then have "Suc i < Suc n" by simp
    with Suc.prems(4) have "seenRunning rt (net (nextPromise st + Suc i))" by blast
    then show "seenRunning rt (net (nextPromise st1 + i))" by (simp add: n1)
  qed
  from Suc.IH[where st=st1, OF q1 Suc.prems(2) le rest]
  obtain st' where l: "pollLoop rt net Bound cb interval (Suc pollCount) st1
                        = pollLoop rt net Bound cb interval (Suc pollCount + n) st'"
    and q: "quiet st'" and nn: "nextPromise st' = nextPromise st1 + n"
    and f: "fetches (trace st') = fetches (trace st1) @ replicate n (Some ''GET'', STATUS)"
    and d: "delays (trace st') = delays (trace st1)"
    by blast
  have "pollLoop rt net Bound cb interval pollCount st
        = pollLoop rt net Bound cb interval (pollCount + Suc n) st'"
    using step l by simp
  moreover have "nextPromise st' = nextPromise st + Suc n" using nn n1 by simp
  moreover have "fetches (trace st') = fetches (trace st) @ replicate (Suc n) (Some ''GET'', STATUS)"
    using f f1 by (simp add: replicate_append_same)
  moreover have "delays (trace st') = delays (trace st)" using d d1 by simp
  ultimately show ?case using q by blast
qed

text \<open>
  C3 (amended). Let \<^verbatim>\<open>pollScrapingProgress\<close> be called as a method of the service, with no
  callback or with a contained one, while no request is in flight; let the job be seen
  running for \<open>n\<close> ticks (\<open>n < 300\<close>) and then report \<^verbatim>\<open>is_running\<close> false with a truthy
  \<^verbatim>\<open>error\<close>. The loop resolves with \<^verbatim>\<open>{ success: false, error: data.error, message:
  data.message }\<close>, and the only requests it has sent are the \<open>n + 1\<close> status polls:
  \<^verbatim>\<open>getResults\<close> is never called.
\<close>

theorem job_error_ends_polling:
  assumes q: "quiet st" and c: "contained rt cb" and cb: "cb \<noteq> NotAFunction" and n: "n < maxPolls"
    and ticks: "\<forall>i<n. seenRunning rt (net (nextPromise st + i))"
    and fin: "snapshot rt (net (nextPromise st + n)) = Got (Inr final)"
             "success final" "isRunning final = Some False"
             "truthy (get_prop (data final) ''error'')"
  shows "\<exists>st'. pollScrapingProgress rt net st Bound cb pollInterval =
                 (Got (Inr (emptyResult\<lparr>success := False,
                              error := get_prop (data final) ''error'',
                              message := get_prop (data final) ''message''\<rparr>)), st') \<and>
               fetches (trace st') = fetches (trace st) @ replicate (Suc n) (Some ''GET'', STATUS)"
proof -
  let ?iv = "safePollInterval pollInterval"
  let ?r = "emptyResult\<lparr>success := False, error := get_prop (data final) ''error'',
                        message := get_prop (data final) ''message''\<rparr>"
  from n have le: "0 + n \<le> maxPolls" by simp
  from pollLoop_running_ticks[where rt=rt and net=net and st=st and cb=cb and interval="?iv",
         OF q c le ticks]
  obtain st1 where l: "pollLoop rt net Bound cb ?iv 0 st = pollLoop rt net Bound cb ?iv n st1"
    and q1: "quiet st1" and n1: "nextPromise st1 = nextPromise st + n"
    and f1: "fetches (trace st1) = fetches (trace st) @ replicate n (Some ''GET'', STATUS)"
    by auto
  from fin(1) n1 have s1: "snapshot rt (net (nextPromise st1)) = Got (Inr final)" by simp
  from poll_job_error[where rt=rt and net=net and st=st1 and cb=cb and interval="?iv" and pollCount=n
         and s=final, OF q1 n c s1 fin(2) fin(3) fin(4)]
  obtain st' where p: "poll rt net Bound cb ?iv n st1 = (Got (Resolve ?r), st')"
    and f: "fetches (trace st') = fetches (trace st1) @ [(Some ''GET'', STATUS)]"
    by auto
  have "pollLoop rt net Bound cb ?iv n st1 = (Got ?r, st')"
    by (subst pollLoop.simps) (simp add: p)
  with l cb have "pollScrapingProgress rt net st Bound cb pollInterval = (Got (Inr ?r), st')"
    by (cases cb) (simp_all add: pollScrapingProgress_def)
  moreover have "fetches (trace st') = fetches (trace st) @ replicate (Suc n) (Some ''GET'', STATUS)"
    using f f1 by (simp add: replicate_append_same)
  ultimately show ?thesis by blast
qed

lemma contained_throwsError: "contained plainRuntime throwsError"
  by (simp add: contained_def throwsError_def safeLog_def)

lemma contained_Absent: "contained rt Absent"
  by (simp add: contained_def)

lemma seenRunning_runningThenError:
  "seenRunning plainRuntime (runningThenError 0)"
  "seenRunning plainRuntime (runningThenError 1)"
  "seenRunning plainRuntime (runningThenError 2)"
  by code_simp+

lemma snapshot_runningThenError_3:
  "snapshot plainRuntime (runningThenError 3) =
     Got (Inr (emptyResult\<lparr>success := True,
                  data := JObj [(''is_running'', JBool False), (''error'', JStr ''x'')] None,
                  isRunning := Some False, progress := Some (Fin 0),
                  message := JStr ''Status retrieved successfully''\<rparr>))"
  by code_simp

theorem job_error_ends_polling_witness:
  "quiet newClient \<and> contained plainRuntime throwsError \<and> throwsError \<noteq> NotAFunction \<and> 3 < maxPolls \<and>
   seenRunning plainRuntime (runningThenError (nextPromise newClient + 0)) \<and>
   seenRunning plainRuntime (runningThenError (nextPromise newClient + 1)) \<and>
   seenRunning plainRuntime (runningThenError (nextPromise newClient + 2)) \<and>
   snapshot plainRuntime (runningThenError (nextPromise newClient + 3)) =
     Got (Inr (emptyResult\<lparr>success := True,
                  data := JObj [(''is_running'', JBool False), (''error'', JStr ''x'')] None,
                  isRunning := Some False, progress := Some (Fin 0),
                  message := JStr ''Status retrieved successfully''\<rparr>)) \<and>
   (\<exists>st'. pollScrapingProgress plainRuntime runningThenError newClient Bound throwsError 2000 =
            (Got (Inr (emptyResult\<lparr>success := False, error := JStr ''x'', message := JUndefined\<rparr>)), st') \<and>
          fetches (trace st') = replicate (Suc 3) (Some ''GET'', STATUS))"
proof -
  let ?final = "emptyResult\<lparr>success := True,
                  data := JObj [(''is_running'', JBool False), (''error'', JStr ''x'')] None,
                  isRunning := Some False, progress := Some (Fin 0),
                  message := JStr ''Status retrieved successfully''\<rparr>"
  have q: "quiet newClient" by (rule quiet_newClient)
  have cb: "throwsError \<noteq> NotAFunction" by (simp add: throwsError_def)
  have n: "3 < maxPolls" by (simp add: maxPolls_def)
  have n0: "nextPromise newClient = 0" by (simp add: newClient_def)
  have ticks: "\<forall>i<3. seenRunning plainRuntime (runningThenError (nextPromise newClient + i))"
  proof (intro allI impI)
    fix i :: nat assume "i < 3"
    then have "i = 0 \<or> i = 1 \<or> i = 2" by auto
    then show "seenRunning plainRuntime (runningThenError (nextPromise newClient + i))"
      using seenRunning_runningThenError by (auto simp: n0)
  qed
  have f0: "snapshot plainRuntime (runningThenError (nextPromise newClient + 3)) = Got (Inr ?final)"
    by (simp add: n0 snapshot_runningThenError_3)
  have f1: "success ?final" by (simp add: emptyResult_def)
  have f2: "isRunning ?final = Some False" by (simp add: emptyResult_def)
  have f3: "truthy (get_prop (data ?final) ''error'')" by (simp add: emptyResult_def)
  have tr: "fetches (trace newClient) = []" by (simp add: newClient_def)
  have d: "get_prop (data ?final) ''error'' = JStr ''x''"
          "get_prop (data ?final) ''message'' = JUndefined"
    by (simp_all add: emptyResult_def)
  from job_error_ends_polling[where rt=plainRuntime and net=runningThenError and st=newClient
         and cb=throwsError and n=3 and pollInterval=2000 and final="?final",
         OF q contained_throwsError cb n ticks f0 f1 f2 f3]
  have "\<exists>st'. pollScrapingProgress plainRuntime runningThenError newClient Bound throwsError 2000 =
            (Got (Inr (emptyResult\<lparr>success := False, error := JStr ''x'', message := JUndefined\<rparr>)), st') \<and>
          fetches (trace st') = replicate (Suc 3) (Some ''GET'', STATUS)"
    by (simp only: d tr append_Nil)
  moreover have "seenRunning plainRuntime (runningThenError (nextPromise newClient + 0))"
    "seenRunning plainRuntime (runningThenError (nextPromise newClient + 1))"
    "seenRunning plainRuntime (runningThenError (nextPromise newClient + 2))"
    using seenRunning_runningThenError by (simp_all add: n0 numeral_2_eq_2)
  ultimately show ?thesis using q cb n f0 contained_throwsError by blast
qed

theorem results_requested_before_job_error_counterexample:
  "fst (pollScrapingProgress plainRuntime doneThenError newClient Bound Absent 2000)
     = Got (Inr (emptyResult\<lparr>success := False, error := JStr ''x'', message := JUndefined\<rparr>)) \<and>
   fetches (trace (snd (pollScrapingProgress plainRuntime doneThenError newClient Bound Absent 2000)))
     = [(Some ''GET'', ''/api/status''), (Some ''GET'', ''/api/results''), (Some ''GET'', ''/api/status'')]"
  by code_simp

text \<open>
  Two ways in which a run of \<^verbatim>\<open>poll\<close> ends in its outer \<^verbatim>\<open>catch\<close>, whatever the status of the
  job: the loop was started through the named export \<^verbatim>\<open>pollScrapingProgress\<close>, so that \<^verbatim>\<open>this\<close>
  is \<^verbatim>\<open>undefined\<close> and no request is sent; or the callback throws \<^verbatim>\<open>null\<close>, so that reading
  \<^verbatim>\<open>callbackError.message\<close> throws. The loop resolves with status 0 and the message of the
  \<^verbatim>\<open>TypeError\<close>.
\<close>

lemma unbound_receiver_ends_polling:
  "pollCount < maxPolls \<Longrightarrow>
   pollLoop rt net Unbound cb interval pollCount st =
     (Got (emptyResult\<lparr>success := False,
             error := JStr (if exn_message (propertyReadError rt JUndefined ''getScrapingStatus'') = []
                            then ''Polling failed''
                            else exn_message (propertyReadError rt JUndefined ''getScrapingStatus'')),
             status := Some 0\<rparr>), st)"
  by (subst pollLoop.simps) (simp add: poll_unbound)

lemma callback_throwing_null_ends_polling:
  "fst (pollScrapingProgress plainRuntime runningThenError newClient Bound throwsNull 2000)
     = Got (Inr (emptyResult\<lparr>success := False,
                   error := JStr (exn_message (plainReadError JNull ''message'')),
                   status := Some 0\<rparr>)) \<and>
   fetches (trace (snd (pollScrapingProgress plainRuntime runningThenError newClient Bound throwsNull 2000)))
     = [(Some ''GET'', ''/api/status'')]"
  by code_simp

subsection \<open>Bounds on the poll loop\<close>

lemma statusPolls_append: "statusPolls (xs @ ys) = statusPolls xs + statusPolls ys"
  by (simp add: statusPolls_def fetches_append)

lemma statusPolls_fetches_eq: "fetches xs = fetches ys \<Longrightarrow> statusPolls xs = statusPolls ys"
  by (simp add: statusPolls_def)













subsection \<open>The outcome of the poll loop\<close>

lemma getScrapingStatus_failure_message:
  assumes "getScrapingStatus rt net st = (Got (Inr s), st1)" and "\<not> success s"
  shows "\<exists>m. error s = JStr m"
  using getScrapingStatus_outcome[of rt net st] assms
  by (auto simp: failure_def emptyResult_def)














lemma pollScrapingProgress_loop:
  "cb \<noteq> NotAFunction \<Longrightarrow>
   pollScrapingProgress rt net st this cb pollInterval =
     (case pollLoop rt net this cb (safePollInterval pollInterval) 0 st of
        (Never, st') \<Rightarrow> (Never, st')
      | (Got r, st') \<Rightarrow> (Got (Inr r), st'))"
  by (cases cb) (simp_all add: pollScrapingProgress_def)








text \<open>
  A status response whose body stalls: the request timer was cleared when the headers
  arrived, the run of \<^verbatim>\<open>poll\<close> stays suspended at \<^verbatim>\<open>await this.getScrapingStatus()\<close>, and the
  promise of \<^verbatim>\<open>pollScrapingProgress\<close> is never resolved.
\<close>

lemma stalled_body_suspends_polling:
  "fst (pollScrapingProgress rt (\<lambda>p. stalledBody) newClient Bound Absent pollInterval) = Never"
proof -
  have g: "fst (getScrapingStatus rt (\<lambda>p. stalledBody) newClient) = Never"
    by (rule stalled_status_never_resolves)
  have "fst (pollTry rt (\<lambda>p. stalledBody) Bound Absent (safePollInterval pollInterval) 0 newClient) = Never"
    using g by (auto simp: pollTry_def maxPolls_def split: prod.splits awaited.splits sum.splits)
  then have "fst (poll rt (\<lambda>p. stalledBody) Bound Absent (safePollInterval pollInterval) 0 newClient) = Never"
    by (auto simp: poll_def split: prod.splits awaited.splits sum.splits)
  then have "fst (pollLoop rt (\<lambda>p. stalledBody) Bound Absent (safePollInterval pollInterval) 0 newClient) = Never"
    by (subst pollLoop.simps) (auto split: prod.splits awaited.splits tick.splits)
  then show ?thesis
    by (auto simp: pollScrapingProgress_def split: prod.splits awaited.splits)
qed

subsection \<open>A failed status poll\<close>

lemma snapshot_failure_message:
  assumes "snapshot rt fr = Got (Inr s)" and "\<not> success s"
  shows "\<exists>m. error s = JStr m"
proof -
  obtain st1 where "getScrapingStatus rt (\<lambda>p. fr) newClient = (Got (Inr s), st1)"
    using assms(1) by (cases "getScrapingStatus rt (\<lambda>p. fr) newClient") (simp add: snapshot_def)
  from getScrapingStatus_failure_message[OF this assms(2)] show ?thesis .
qed

text \<open>
  C9 (amended). Let \<^verbatim>\<open>pollScrapingProgress\<close> be called as a method of the service, with no
  callback or with a contained one, while no request is in flight. When a status poll
  fails, at the first tick or after any number of ticks at which the job was running, the
  loop resolves at once with a failure carrying the error message and the status of that
  poll. The poll was a single request (one fetch per tick, made by \<^verbatim>\<open>makeRequest\<close> directly)
  and no backoff delay was awaited: the status request does not go through
  \<^verbatim>\<open>makeRequestWithRetry\<close>.
\<close>

theorem failed_status_poll_ends_polling:
  assumes q: "quiet st" and c: "contained rt cb" and cb: "cb \<noteq> NotAFunction" and n: "n < maxPolls"
    and ticks: "\<forall>i<n. seenRunning rt (net (nextPromise st + i))"
    and bad: "snapshot rt (net (nextPromise st + n)) = Got (Inr s)" "\<not> success s"
  shows "\<exists>st' m. pollScrapingProgress rt net st Bound cb pollInterval =
                 (Got (Inr (emptyResult\<lparr>success := False, error := JStr m, status := status s\<rparr>)), st') \<and>
               error s = JStr m \<and>
               fetches (trace st') = fetches (trace st) @ replicate (Suc n) (Some ''GET'', STATUS) \<and>
               delays (trace st') = delays (trace st)"
proof -
  let ?iv = "safePollInterval pollInterval"
  from snapshot_failure_message[OF bad] obtain m where m: "error s = JStr m" by blast
  from n have le: "0 + n \<le> maxPolls" by simp
  from pollLoop_running_ticks[where rt=rt and net=net and st=st and cb=cb and interval="?iv",
         OF q c le ticks]
  obtain st1 where l: "pollLoop rt net Bound cb ?iv 0 st = pollLoop rt net Bound cb ?iv n st1"
    and q1: "quiet st1" and n1: "nextPromise st1 = nextPromise st + n"
    and f1: "fetches (trace st1) = fetches (trace st) @ replicate n (Some ''GET'', STATUS)"
    and d1: "delays (trace st1) = delays (trace st)"
    by auto
  from bad(1) have bad1: "snapshot rt (net (nextPromise st1)) = Got (Inr s)" by (simp add: n1)
  have p: "poll rt net Bound cb ?iv n st1 =
           (Got (Resolve (emptyResult\<lparr>success := False, error := JStr m, status := status s\<rparr>)),
            afterFetch (Some ''GET'') STATUS st1)"
    using poll_status_failed[where rt=rt and net=net and st=st1 and cb=cb and interval="?iv"
            and pollCount=n and s=s, OF q1 n bad1 bad(2)]
    by (simp add: m)
  have "pollLoop rt net Bound cb ?iv n st1 =
          (Got (emptyResult\<lparr>success := False, error := JStr m, status := status s\<rparr>),
           afterFetch (Some ''GET'') STATUS st1)"
    by (subst pollLoop.simps) (simp add: p)
  with l have "pollScrapingProgress rt net st Bound cb pollInterval =
                 (Got (Inr (emptyResult\<lparr>success := False, error := JStr m, status := status s\<rparr>)),
                  afterFetch (Some ''GET'') STATUS st1)"
    by (simp add: pollScrapingProgress_loop[OF cb])
  moreover have "fetches (trace (afterFetch (Some ''GET'') STATUS st1))
                 = fetches (trace st) @ replicate (Suc n) (Some ''GET'', STATUS)"
    using f1 by (simp add: fetches_afterFetch replicate_append_same)
  moreover have "delays (trace (afterFetch (Some ''GET'') STATUS st1)) = delays (trace st)"
    using d1 by (simp add: delays_afterFetch)
  ultimately show ?thesis using m by blast
qed

lemma seenRunning_runningThenDown:
  "seenRunning plainRuntime (runningThenDown 0)"
  "seenRunning plainRuntime (runningThenDown 1)"
  by code_simp+

lemma snapshot_runningThenDown_2:
  "snapshot plainRuntime (runningThenDown 2) =
     Got (Inr (emptyResult\<lparr>success := False, error := JStr ''HTTP 500: '', status := Some 500,
                            isRunning := Some False, progress := Some (Fin 0)\<rparr>))"
  by code_simp

theorem failed_status_poll_ends_polling_witness:
  "quiet newClient \<and> contained plainRuntime throwsError \<and> throwsError \<noteq> NotAFunction \<and> 2 < maxPolls \<and>
   seenRunning plainRuntime (runningThenDown (nextPromise newClient + 0)) \<and>
   seenRunning plainRuntime (runningThenDown (nextPromise newClient + 1)) \<and>
   snapshot plainRuntime (runningThenDown (nextPromise newClient + 2)) =
     Got (Inr (emptyResult\<lparr>success := False, error := JStr ''HTTP 500: '', status := Some 500,
                            isRunning := Some False, progress := Some (Fin 0)\<rparr>)) \<and>
   (\<exists>st'. pollScrapingProgress plainRuntime runningThenDown newClient Bound throwsError 2000 =
            (Got (Inr (emptyResult\<lparr>success := False, error := JStr ''HTTP 500: '', status := Some 500\<rparr>)),
             st') \<and>
          fetches (trace st') = replicate 3 (Some ''GET'', STATUS) \<and> delays (trace st') = [])"
proof -
  let ?s = "emptyResult\<lparr>success := False, error := JStr ''HTTP 500: '', status := Some 500,
                            isRunning := Some False, progress := Some (Fin 0)\<rparr>"
  have q: "quiet newClient" by (rule quiet_newClient)
  have cb: "throwsError \<noteq> NotAFunction" by (simp add: throwsError_def)
  have n: "2 < maxPolls" by (simp add: maxPolls_def)
  have n0: "nextPromise newClient = 0" by (simp add: newClient_def)
  have ticks: "\<forall>i<2. seenRunning plainRuntime (runningThenDown (nextPromise newClient + i))"
  proof (intro allI impI)
    fix i :: nat assume "i < 2"
    then have "i = 0 \<or> i = 1" by auto
    then show "seenRunning plainRuntime (runningThenDown (nextPromise newClient + i))"
      using seenRunning_runningThenDown by (auto simp: n0)
  qed
  have bad: "snapshot plainRuntime (runningThenDown (nextPromise newClient + 2)) = Got (Inr ?s)"
    by (simp only: n0 add_0 snapshot_runningThenDown_2)
  have ns: "\<not> success ?s" by (simp add: emptyResult_def)
  have tr: "fetches (trace newClient) = []" "delays (trace newClient) = []"
    by (simp_all add: newClient_def)
  from failed_status_poll_ends_polling[where rt=plainRuntime and net=runningThenDown and st=newClient
         and cb=throwsError and n=2 and pollInterval=2000 and s="?s",
         OF q contained_throwsError cb n ticks bad ns]
  have "\<exists>st'. pollScrapingProgress plainRuntime runningThenDown newClient Bound throwsError 2000 =
            (Got (Inr (emptyResult\<lparr>success := False, error := JStr ''HTTP 500: '', status := Some 500\<rparr>)),
             st') \<and>
          fetches (trace st') = replicate 3 (Some ''GET'', STATUS) \<and> delays (trace st') = []"
    by (auto simp: tr emptyResult_def numeral_3_eq_3)
  moreover have "seenRunning plainRuntime (runningThenDown (nextPromise newClient + 0))"
    "seenRunning plainRuntime (runningThenDown (nextPromise newClient + 1))"
    using seenRunning_runningThenDown by (simp_all add: n0)
  ultimately show ?thesis using q cb n bad contained_throwsError by blast
qed

theorem status_poll_is_not_retried_counterexample:
  "fst (pollScrapingProgress plainRuntime failsOnce newClient Bound Absent 2000)
     = Got (Inr (emptyResult\<lparr>success := False, error := JStr ''HTTP 500: '', status := Some 500\<rparr>)) \<and>
   trace (snd (pollScrapingProgress plainRuntime failsOnce newClient Bound Absent 2000))
     = [Fetch 0 (Some ''GET'') ''/api/status'' None] \<and>
   fst (makeRequestWithRetry plainRuntime failsOnce newClient ''/api/status'' GET 1)
     = Got (Inr (JObj [(''is_running'', JBool True), (''status'', JStr ''ok'')] None)) \<and>
   trace (snd (makeRequestWithRetry plainRuntime failsOnce newClient ''/api/status'' GET 1))
     = [Fetch 0 (Some ''GET'') ''/api/status'' None, Delay 1000,
        Fetch 1 (Some ''GET'') ''/api/status'' None]"
  by code_simp

subsection \<open>Cancelling\<close>


lemma makeRequest_trace:
  "\<exists>more. trace (fst (snd (makeRequest rt st url opts))) = trace st @ more"
  by (auto simp: makeRequest_def Let_def split: option.splits)

lemma awaitRequest_trace:
  "\<exists>more. trace (fst (snd (awaitRequest rt net st url opts))) = trace st @ more"
  using makeRequest_trace[of rt st url opts]
  by (auto simp: awaitRequest_def settle_trace split: prod.splits sum.splits awaited.splits)
















subsection \<open>Validation of the date\<close>

lemma DayFromYear_mono_2008:
  assumes "y \<le> 2008"
  shows "DayFromYear y \<le> 13880"
proof -
  define a where "a = (y - 1969) div 4"
  define b where "b = (y - 1901) div 100"
  define c where "c = (y - 1601) div 400"
  define ra where "ra = (y - 1969) mod 4"
  define rb where "rb = (y - 1901) mod 100"
  define rc where "rc = (y - 1601) mod 400"
  have ea: "4 * a + ra = y - 1969"
    unfolding a_def ra_def by (rule mult_div_mod_eq)
  have eb: "100 * b + rb = y - 1901"
    unfolding b_def rb_def by (rule mult_div_mod_eq)
  have ec: "400 * c + rc = y - 1601"
    unfolding c_def rc_def by (rule mult_div_mod_eq)
  have ma: "0 \<le> ra" unfolding ra_def by simp
  have "rb < 100" unfolding rb_def by simp
  then have mb: "rb \<le> 99" by simp
  have mc: "0 \<le> rc" unfolding rc_def by simp
  have a4: "400 * a \<le> 100 * y - 196900" using ea ma by simp
  have b4: "- (400 * b) \<le> 8000 - 4 * y" using eb mb by simp
  have c4: "400 * c \<le> y - 1601" using ec mc by simp
  have "400 * (365 * (y - 1970) + a - b + c) = 146000 * y - 287620000 + 400 * a - 400 * b + 400 * c"
    by (simp add: algebra_simps)
  also have "\<dots> \<le> 146000 * y - 287620000 + (100 * y - 196900) + (8000 - 4 * y) + (y - 1601)"
    using a4 b4 c4 by simp
  also have "\<dots> = 146097 * y - 287810501" by simp
  also have "\<dots> \<le> 146097 * 2008 - 287810501" using assms by simp
  finally have "400 * (365 * (y - 1970) + a - b + c) \<le> 5552275" by simp
  then have "365 * (y - 1970) + a - b + c \<le> 13880" by simp
  then show ?thesis by (simp add: DayFromYear_def a_def b_def c_def)
qed

lemma DayFromYear_2009: "DayFromYear 2009 = 14245"
  by (simp add: DayFromYear_def)

lemma not_leap_2009: "\<not> InLeapYear 2009"
  by (simp add: InLeapYear_def)

lemma minDate_value: "minDate = 14610 * msPerDay"
  by (simp add: minDate_def utcMidnight_def DayFromYear_def daysBeforeMonth_def InLeapYear_def)

lemma month_cases:
  "1 \<le> m \<Longrightarrow> m \<le> 12 \<Longrightarrow>
   m = 1 \<or> m = 2 \<or> m = 3 \<or> m = 4 \<or> m = 5 \<or> m = 6 \<or> m = 7 \<or> m = 8 \<or> m = 9 \<or> m = 10 \<or> m = 11 \<or> m = (12::int)"
  by arith

lemma daysBeforeMonth_bound:
  assumes "1 \<le> m" and "m \<le> 12"
  shows "daysBeforeMonth y m \<le> (if InLeapYear y then 335 else 334)"
  using month_cases[OF assms]
  by (elim disjE) (simp_all add: daysBeforeMonth_def)

lemma before_2010:
  assumes y: "y < 2010" and m: "1 \<le> m" "m \<le> 12" and d: "d \<le> 31"
  shows "utcMidnight y m d < minDate"
proof -
  have "DayFromYear y + daysBeforeMonth y m + d - 1 < 14610"
  proof (cases "y = 2009")
    case True
    have "daysBeforeMonth y m \<le> 334"
      using daysBeforeMonth_bound[OF m, of y] True not_leap_2009 by simp
    with True d show ?thesis by (simp add: DayFromYear_2009)
  next
    case False
    with y have "y \<le> 2008" by simp
    then have "DayFromYear y \<le> 13880" by (rule DayFromYear_mono_2008)
    moreover have "daysBeforeMonth y m \<le> 335"
      using daysBeforeMonth_bound[OF m, of y] by (simp split: if_splits)
    ultimately show ?thesis using d by simp
  qed
  then show ?thesis by (simp add: utcMidnight_def minDate_value msPerDay_def)
qed

lemma parseDate_before_2010:
  assumes "parseDate rt s = Some t" and "digitsValue (take 4 s) < 2010"
  shows "t < minDate"
proof -
  let ?y = "digitsValue (take 4 s)"
  let ?m = "digitsValue (take 2 (drop 5 s))"
  let ?d = "digitsValue (take 2 (drop 8 s))"
  from assms(1) have m: "1 \<le> ?m" "?m \<le> 12" and d: "?d \<le> 31" and t: "t = utcMidnight ?y ?m ?d"
    by (auto simp: parseDate_def Let_def split: if_splits)
  from before_2010[OF assms(2) m d] t show ?thesis by simp
qed

subsection \<open>What a retried request sends\<close>

lemma awaitRequest_quiet_trace:
  assumes q: "quiet st" and url: "url \<noteq> []"
  shows "trace (fst (snd (awaitRequest rt net st url opts)))
         = trace st @ [Fetch (nextPromise st) (httpMethod (sanitizeBody rt opts)) url
                         (body (sanitizeBody rt opts))]"
proof (cases "requestPromise rt (net (nextPromise st))")
  case Never
  with q url show ?thesis by (simp add: awaitRequest_quiet_never(2))
next
  case (Got outcome)
  with q url show ?thesis by (simp add: awaitRequest_quiet)
qed

lemma makeRequestWithRetry_trace:
  "\<exists>more. trace (snd (makeRequestWithRetry rt net st url opts attempt)) = trace st @ more"
proof (induction rt net st url opts attempt rule: makeRequestWithRetry.induct)
  case (1 rt net st url opts attempt)
  obtain r st1 opts1 where aw: "awaitRequest rt net st url opts = (r, st1, opts1)"
    by (cases "awaitRequest rt net st url opts") auto
  from awaitRequest_trace[of rt net st url opts] aw
  obtain m1 where t1: "trace st1 = trace st @ m1" by auto
  show ?case
  proof (cases r)
    case Never
    with aw have "snd (makeRequestWithRetry rt net st url opts attempt) = st1"
      by (subst makeRequestWithRetry.simps) simp
    with t1 show ?thesis by simp
  next
    case (Got outcome)
    show ?thesis
    proof (cases outcome)
      case (Inr v)
      with aw Got have "snd (makeRequestWithRetry rt net st url opts attempt) = st1"
        by (subst makeRequestWithRetry.simps) simp
      with t1 show ?thesis by simp
    next
      case (Inl e)
      show ?thesis
      proof (cases "attempt \<ge> MAX_RETRY_ATTEMPTS \<or> \<not> shouldRetry e")
        case True
        with aw Got Inl have "snd (makeRequestWithRetry rt net st url opts attempt) = st1"
          by (subst makeRequestWithRetry.simps) auto
        with t1 show ?thesis by simp
      next
        case False
        let ?st2 = "st1\<lparr>trace := trace st1 @ [Delay (retryDelay attempt)]\<rparr>"
        from False aw Got Inl
        have rec: "makeRequestWithRetry rt net st url opts attempt
                   = makeRequestWithRetry rt net ?st2 url opts1 (Suc attempt)"
          by (subst makeRequestWithRetry.simps) auto
        from False have c1: "\<not> MAX_RETRY_ATTEMPTS \<le> attempt" and c2: "\<not> \<not> shouldRetry e" by auto
        from "1.IH"[OF aw[symmetric] Got Inl refl c1 c2]
        obtain m2 where "trace (snd (makeRequestWithRetry rt net ?st2 url opts1 (Suc attempt)))
                         = trace ?st2 @ m2" by blast
        with t1 rec show ?thesis by simp
      qed
    qed
  qed
qed

lemma makeRequestWithRetry_first_fetch:
  assumes q: "quiet st" and url: "url \<noteq> []"
  shows "\<exists>more. trace (snd (makeRequestWithRetry rt net st url opts attempt))
                = trace st @ Fetch (nextPromise st) (httpMethod (sanitizeBody rt opts)) url
                                   (body (sanitizeBody rt opts)) # more"
proof -
  let ?f = "Fetch (nextPromise st) (httpMethod (sanitizeBody rt opts)) url (body (sanitizeBody rt opts))"
  obtain r st1 opts1 where aw: "awaitRequest rt net st url opts = (r, st1, opts1)"
    by (cases "awaitRequest rt net st url opts") auto
  from awaitRequest_quiet_trace[OF q url, of rt net opts] aw
  have t1: "trace st1 = trace st @ [?f]" by simp
  have step: "makeRequestWithRetry rt net st url opts attempt =
        (case r of
           Never \<Rightarrow> (Never, st1)
         | Got (Inr v) \<Rightarrow> (Got (Inr v), st1)
         | Got (Inl e) \<Rightarrow>
             if attempt \<ge> MAX_RETRY_ATTEMPTS then (Got (Inl e), st1)
             else if \<not> shouldRetry e then (Got (Inl e), st1)
             else makeRequestWithRetry rt net
                    (st1\<lparr>trace := trace st1 @ [Delay (retryDelay attempt)]\<rparr>) url opts1 (Suc attempt))"
    by (subst makeRequestWithRetry.simps) (simp add: aw split: awaited.splits sum.splits)
  have "snd (makeRequestWithRetry rt net st url opts attempt) = st1 \<or>
        (\<exists>st2 more. trace st2 = trace st1 @ more \<and>
           snd (makeRequestWithRetry rt net st url opts attempt)
             = snd (makeRequestWithRetry rt net st2 url opts1 (Suc attempt)))"
  proof (cases "snd (makeRequestWithRetry rt net st url opts attempt) = st1")
    case True
    then show ?thesis by simp
  next
    case False
    with step have "makeRequestWithRetry rt net st url opts attempt
                    = makeRequestWithRetry rt net
                        (st1\<lparr>trace := trace st1 @ [Delay (retryDelay attempt)]\<rparr>) url opts1 (Suc attempt)"
      by (auto split: awaited.splits sum.splits if_splits)
    moreover have "trace (st1\<lparr>trace := trace st1 @ [Delay (retryDelay attempt)]\<rparr>)
                   = trace st1 @ [Delay (retryDelay attempt)]" by simp
    ultimately show ?thesis by metis
  qed
  then show ?thesis
  proof (elim disjE exE conjE)
    assume "snd (makeRequestWithRetry rt net st url opts attempt) = st1"
    with t1 show ?thesis by simp
  next
    fix st2 more
    assume t2: "trace st2 = trace st1 @ more"
      and e: "snd (makeRequestWithRetry rt net st url opts attempt)
              = snd (makeRequestWithRetry rt net st2 url opts1 (Suc attempt))"
    from makeRequestWithRetry_trace[of rt net st2 url opts1 "Suc attempt"]
    obtain m2 where "trace (snd (makeRequestWithRetry rt net st2 url opts1 (Suc attempt))) = trace st2 @ m2"
      by blast
    with t1 t2 e show ?thesis by simp
  qed
qed

subsection \<open>startScraping\<close>

lemma matchesDatePattern_nonempty: "matchesDatePattern s \<Longrightarrow> s \<noteq> []"
  by auto

lemma isDigit_not_space: "isDigit c \<Longrightarrow> \<not> isWhiteSpace c"
  by (auto simp: isDigit_def isWhiteSpace_def)

lemma trim_date: "matchesDatePattern s \<Longrightarrow> trim s = s"
  by (erule matchesDatePattern.elims) (auto simp: trim_def isDigit_not_space)

text \<open>
  For a date that is a string the \<^verbatim>\<open>catch\<close> block logs without throwing, and the state the
  call leaves is the state its \<^verbatim>\<open>try\<close> block leaves.
\<close>

lemma startScraping_string:
  "startScraping rt today net st (JStr d) =
     (case startScrapingTry rt today net st (JStr d) of
        (Never, st') \<Rightarrow> (Never, st')
      | (Got (Inr r), st') \<Rightarrow> (Got (Inr r), st')
      | (Got (Inl e), st') \<Rightarrow> (Got (Inr (failure e)), st'))"
  by (rule startScraping_catch) simp

lemma startScraping_empty:
  "purify rt (trim d) = [] \<Longrightarrow>
   startScraping rt today net st (JStr d)
     = (Got (Inr (failure (ApiError ''Date is required'' 400 JNull))), st)"
  by (simp add: startScraping_string startScrapingTry_def)

lemma startScraping_bad_shape:
  "purify rt (trim d) \<noteq> [] \<Longrightarrow> \<not> matchesDatePattern (purify rt (trim d)) \<Longrightarrow>
   startScraping rt today net st (JStr d)
     = (Got (Inr (failure (ApiError ''Invalid date format. Please use YYYY-MM-DD format.'' 400 JNull))),
        st)"
  by (simp add: startScraping_string startScrapingTry_def)

lemma startScraping_invalid_date:
  "matchesDatePattern (purify rt (trim d)) \<Longrightarrow> parseDate rt (purify rt (trim d)) = None \<Longrightarrow>
   startScraping rt today net st (JStr d)
     = (Got (Inr (failure (ApiError ''Invalid date provided'' 400 JNull))), st)"
  using matchesDatePattern_nonempty[of "purify rt (trim d)"]
  by (simp add: startScraping_string startScrapingTry_def)

lemma startScraping_future:
  "matchesDatePattern (purify rt (trim d)) \<Longrightarrow> parseDate rt (purify rt (trim d)) = Some t \<Longrightarrow>
   today < t \<Longrightarrow>
   startScraping rt today net st (JStr d)
     = (Got (Inr (failure (ApiError ''Date cannot be in the future'' 400 JNull))), st)"
  using matchesDatePattern_nonempty[of "purify rt (trim d)"]
  by (simp add: startScraping_string startScrapingTry_def)

lemma startScraping_too_early:
  "matchesDatePattern (purify rt (trim d)) \<Longrightarrow> parseDate rt (purify rt (trim d)) = Some t \<Longrightarrow>
   t \<le> today \<Longrightarrow> t < minDate \<Longrightarrow>
   startScraping rt today net st (JStr d)
     = (Got (Inr (failure (ApiError ''Date cannot be before 2010'' 400 JNull))), st)"
  using matchesDatePattern_nonempty[of "purify rt (trim d)"]
  by (simp add: startScraping_string startScrapingTry_def)

lemma startScraping_year_before_2010:
  assumes m: "matchesDatePattern (purify rt (trim d))"
    and y: "digitsValue (take 4 (purify rt (trim d))) < 2010"
  shows "\<exists>msg. startScraping rt today net st (JStr d)
               = (Got (Inr (failure (ApiError msg 400 JNull))), st)"
proof (cases "parseDate rt (purify rt (trim d))")
  case None
  with m show ?thesis by (blast intro: startScraping_invalid_date)
next
  case (Some t)
  then have early: "t < minDate" using y by (rule parseDate_before_2010)
  show ?thesis
  proof (cases "today < t")
    case True
    with m Some show ?thesis by (blast intro: startScraping_future)
  next
    case False
    then have "t \<le> today" by simp
    with m Some early show ?thesis by (blast intro: startScraping_too_early)
  qed
qed

lemma startScraping_accepts:
  assumes m: "matchesDatePattern (purify rt (trim d))"
    and p: "parseDate rt (purify rt (trim d)) = Some t" and lo: "minDate \<le> t" and hi: "t \<le> today"
    and q: "quiet st"
  shows "\<exists>more. trace (snd (startScraping rt today net st (JStr d)))
                = trace st @ Fetch (nextPromise st) (Some ''POST'') SCRAPE
                               (body (sanitizeBody rt (scrapeOptions rt (purify rt (trim d))))) # more"
proof -
  let ?opts = "scrapeOptions rt (purify rt (trim d))"
  let ?run = "makeRequestWithRetry rt net st SCRAPE ?opts 1"
  have url: "SCRAPE \<noteq> []" by (simp add: SCRAPE_def)
  have hm: "httpMethod (sanitizeBody rt ?opts) = Some ''POST''"
    by (simp add: sanitizeBody_def scrapeOptions_def split: option.splits)
  from makeRequestWithRetry_first_fetch[OF q url, of rt net ?opts 1]
  obtain more where f: "trace (snd ?run)
        = trace st @ Fetch (nextPromise st) (Some ''POST'') SCRAPE (body (sanitizeBody rt ?opts)) # more"
    by (auto simp: hm)
  have "snd (startScrapingTry rt today net st (JStr d)) = snd ?run"
    using m p lo hi matchesDatePattern_nonempty[of "purify rt (trim d)"]
    by (cases ?run)
       (auto simp: startScrapingTry_def split: sum.splits awaited.splits option.splits)
  then have "snd (startScraping rt today net st (JStr d)) = snd ?run"
    by (auto simp: startScraping_string split: prod.splits sum.splits awaited.splits)
  with f show ?thesis by auto
qed

text \<open>
  The body sent: when DOMPurify leaves the date as it is and \<^verbatim>\<open>JSON.parse\<close> reads back what
  \<^verbatim>\<open>JSON.stringify\<close> wrote, it is \<^verbatim>\<open>JSON.stringify({ date: sanitizedDate })\<close>.
\<close>

lemma scrape_body:
  assumes m: "matchesDatePattern sd" and p: "purify rt sd = sd"
    and ne: "jsonStringify rt (JObj [(''date'', JStr sd)] None) \<noteq> []"
    and rb: "jsonParse rt (jsonStringify rt (JObj [(''date'', JStr sd)] None))
             = Some (JObj [(''date'', JStr sd)] None)"
  shows "body (sanitizeBody rt (scrapeOptions rt sd))
         = Some (jsonStringify rt (JObj [(''date'', JStr sd)] None))"
  using ne rb p trim_date[OF m]
  by (simp add: sanitizeBody_def scrapeOptions_def installedPrototype_def)

lemma trim_2009: "trim ''2009-12-31'' = ''2009-12-31''"
  by (simp add: trim_def isWhiteSpace_def)

lemma trim_2015: "trim ''2015-06-01'' = ''2015-06-01''"
  by (simp add: trim_def isWhiteSpace_def)

lemma startScraping_2009_12_31:
  assumes "purify rt ''2009-12-31'' = ''2009-12-31''"
  shows "\<exists>msg. startScraping rt today net st (JStr ''2009-12-31'')
               = (Got (Inr (failure (ApiError msg 400 JNull))), st)"
proof -
  have s: "purify rt (trim ''2009-12-31'') = ''2009-12-31''"
    using assms by (simp add: trim_2009)
  have m: "matchesDatePattern (purify rt (trim ''2009-12-31''))"
    unfolding s by (simp add: isDigit_def)
  have y: "digitsValue (take 4 (purify rt (trim ''2009-12-31''))) < 2010"
    unfolding s by (simp add: digitsValue_def)
  from m y show ?thesis by (rule startScraping_year_before_2010)
qed

lemma startScraping_2015_06_01:
  assumes "purify rt ''2015-06-01'' = ''2015-06-01''" and "utcMidnight 2015 6 1 \<le> today"
    and "quiet st"
  shows "\<exists>more. trace (snd (startScraping rt today net st (JStr ''2015-06-01'')))
                = trace st @ Fetch (nextPromise st) (Some ''POST'') SCRAPE
                               (body (sanitizeBody rt (scrapeOptions rt ''2015-06-01''))) # more"
proof -
  have s: "purify rt (trim ''2015-06-01'') = ''2015-06-01''"
    using assms(1) by (simp add: trim_2015)
  have m: "matchesDatePattern (purify rt (trim ''2015-06-01''))"
    unfolding s by (simp add: isDigit_def)
  have p: "parseDate rt (purify rt (trim ''2015-06-01'')) = Some (utcMidnight 2015 6 1)"
    unfolding s by (simp add: parseDate_def digitsValue_def daysInMonth_def)
  have lo: "minDate \<le> utcMidnight 2015 6 1"
    by (simp add: minDate_def utcMidnight_def DayFromYear_def daysBeforeMonth_def InLeapYear_def
          msPerDay_def)
  from startScraping_accepts[OF m p lo assms(2,3), of net] show ?thesis
    by (simp only: s)
qed

text \<open>
  C6 (amended). For every input date string \<open>d\<close>, \<^verbatim>\<open>startScraping\<close> first sanitises it
  (trimmed, passed through DOMPurify) and validates the sanitised string \<open>sd\<close>. It
  resolves with a failure of status 400, the module state unchanged (no network call),
  when \<open>sd\<close> is empty, does not have the shape YYYY-MM-DD, is not a date, is a day whose UTC
  midnight is later than the current instant, or is a day before 2010-01-01; every year
  before 2010 is rejected, in particular \<^verbatim>\<open>"2009-12-31"\<close>. Otherwise, and only then, it sends
  a request: a POST to \<^verbatim>\<open>/api/scrape\<close> whose body is \<^verbatim>\<open>JSON.stringify({ date: sd })\<close> as
  \<^verbatim>\<open>makeRequest\<close> sanitises it (that very text when DOMPurify leaves \<open>sd\<close> as it is and
  \<^verbatim>\<open>JSON.parse\<close> reads it back); \<^verbatim>\<open>"2015-06-01"\<close> is accepted once that day has begun.
\<close>

theorem startScraping_validates_sanitized_date:
  assumes sd: "sd = purify rt (trim d)"
  shows
  "(sd = [] \<longrightarrow>
      startScraping rt today net st (JStr d)
        = (Got (Inr (failure (ApiError ''Date is required'' 400 JNull))), st)) \<and>
   (sd \<noteq> [] \<and> \<not> matchesDatePattern sd \<longrightarrow>
      startScraping rt today net st (JStr d)
        = (Got (Inr (failure (ApiError ''Invalid date format. Please use YYYY-MM-DD format.'' 400 JNull))),
           st)) \<and>
   (matchesDatePattern sd \<and> parseDate rt sd = None \<longrightarrow>
      startScraping rt today net st (JStr d)
        = (Got (Inr (failure (ApiError ''Invalid date provided'' 400 JNull))), st)) \<and>
   (matchesDatePattern sd \<and> parseDate rt sd = Some t \<and> today < t \<longrightarrow>
      startScraping rt today net st (JStr d)
        = (Got (Inr (failure (ApiError ''Date cannot be in the future'' 400 JNull))), st)) \<and>
   (matchesDatePattern sd \<and> parseDate rt sd = Some t \<and> t \<le> today \<and> t < minDate \<longrightarrow>
      startScraping rt today net st (JStr d)
        = (Got (Inr (failure (ApiError ''Date cannot be before 2010'' 400 JNull))), st)) \<and>
   (matchesDatePattern sd \<and> digitsValue (take 4 sd) < 2010 \<longrightarrow>
      (\<exists>msg. startScraping rt today net st (JStr d)
              = (Got (Inr (failure (ApiError msg 400 JNull))), st))) \<and>
   (matchesDatePattern sd \<and> parseDate rt sd = Some t \<and> minDate \<le> t \<and> t \<le> today \<and> quiet st \<longrightarrow>
      (\<exists>more. trace (snd (startScraping rt today net st (JStr d)))
               = trace st @ Fetch (nextPromise st) (Some ''POST'') SCRAPE
                              (body (sanitizeBody rt (scrapeOptions rt sd))) # more)) \<and>
   (matchesDatePattern sd \<and> purify rt sd = sd \<and>
    jsonStringify rt (JObj [(''date'', JStr sd)] None) \<noteq> [] \<and>
    jsonParse rt (jsonStringify rt (JObj [(''date'', JStr sd)] None))
      = Some (JObj [(''date'', JStr sd)] None) \<longrightarrow>
      body (sanitizeBody rt (scrapeOptions rt sd))
        = Some (jsonStringify rt (JObj [(''date'', JStr sd)] None))) \<and>
   (purify rt ''2009-12-31'' = ''2009-12-31'' \<longrightarrow>
      (\<exists>msg. startScraping rt today net st (JStr ''2009-12-31'')
              = (Got (Inr (failure (ApiError msg 400 JNull))), st))) \<and>
   (purify rt ''2015-06-01'' = ''2015-06-01'' \<and> utcMidnight 2015 6 1 \<le> today \<and> quiet st \<longrightarrow>
      (\<exists>more. trace (snd (startScraping rt today net st (JStr ''2015-06-01'')))
               = trace st @ Fetch (nextPromise st) (Some ''POST'') SCRAPE
                              (body (sanitizeBody rt (scrapeOptions rt ''2015-06-01''))) # more))"
  unfolding sd
proof (intro conjI impI)
  assume "purify rt (trim d) = []"
  then show "startScraping rt today net st (JStr d)
        = (Got (Inr (failure (ApiError ''Date is required'' 400 JNull))), st)"
    by (rule startScraping_empty)
next
  assume "purify rt (trim d) \<noteq> [] \<and> \<not> matchesDatePattern (purify rt (trim d))"
  then show "startScraping rt today net st (JStr d)
        = (Got (Inr (failure (ApiError ''Invalid date format. Please use YYYY-MM-DD format.'' 400 JNull))),
           st)"
    by (simp add: startScraping_bad_shape)
next
  assume "matchesDatePattern (purify rt (trim d)) \<and> parseDate rt (purify rt (trim d)) = None"
  then show "startScraping rt today net st (JStr d)
        = (Got (Inr (failure (ApiError ''Invalid date provided'' 400 JNull))), st)"
    by (simp add: startScraping_invalid_date)
next
  assume "matchesDatePattern (purify rt (trim d)) \<and> parseDate rt (purify rt (trim d)) = Some t \<and> today < t"
  then show "startScraping rt today net st (JStr d)
        = (Got (Inr (failure (ApiError ''Date cannot be in the future'' 400 JNull))), st)"
    by (simp add: startScraping_future)
next
  assume "matchesDatePattern (purify rt (trim d)) \<and> parseDate rt (purify rt (trim d)) = Some t \<and>
          t \<le> today \<and> t < minDate"
  then show "startScraping rt today net st (JStr d)
        = (Got (Inr (failure (ApiError ''Date cannot be before 2010'' 400 JNull))), st)"
    by (simp add: startScraping_too_early)
next
  assume "matchesDatePattern (purify rt (trim d)) \<and> digitsValue (take 4 (purify rt (trim d))) < 2010"
  then show "\<exists>msg. startScraping rt today net st (JStr d)
              = (Got (Inr (failure (ApiError msg 400 JNull))), st)"
    by (simp add: startScraping_year_before_2010)
next
  assume "matchesDatePattern (purify rt (trim d)) \<and> parseDate rt (purify rt (trim d)) = Some t \<and>
          minDate \<le> t \<and> t \<le> today \<and> quiet st"
  then show "\<exists>more. trace (snd (startScraping rt today net st (JStr d)))
               = trace st @ Fetch (nextPromise st) (Some ''POST'') SCRAPE
                              (body (sanitizeBody rt (scrapeOptions rt (purify rt (trim d))))) # more"
    by (simp add: startScraping_accepts)
next
  assume "matchesDatePattern (purify rt (trim d)) \<and> purify rt (purify rt (trim d)) = purify rt (trim d) \<and>
    jsonStringify rt (JObj [(''date'', JStr (purify rt (trim d)))] None) \<noteq> [] \<and>
    jsonParse rt (jsonStringify rt (JObj [(''date'', JStr (purify rt (trim d)))] None))
      = Some (JObj [(''date'', JStr (purify rt (trim d)))] None)"
  then show "body (sanitizeBody rt (scrapeOptions rt (purify rt (trim d))))
        = Some (jsonStringify rt (JObj [(''date'', JStr (purify rt (trim d)))] None))"
    by (simp add: scrape_body)
next
  assume "purify rt ''2009-12-31'' = ''2009-12-31''"
  then show "\<exists>msg. startScraping rt today net st (JStr ''2009-12-31'')
              = (Got (Inr (failure (ApiError msg 400 JNull))), st)"
    by (rule startScraping_2009_12_31)
next
  assume "purify rt ''2015-06-01'' = ''2015-06-01'' \<and> utcMidnight 2015 6 1 \<le> today \<and> quiet st"
  then show "\<exists>more. trace (snd (startScraping rt today net st (JStr ''2015-06-01'')))
               = trace st @ Fetch (nextPromise st) (Some ''POST'') SCRAPE
                              (body (sanitizeBody rt (scrapeOptions rt ''2015-06-01''))) # more"
    by (simp add: startScraping_2015_06_01)
qed

lemma plain_round_trip:
  "plainStringify (JObj [(''date'', JStr ''2015-06-01'')] None) \<noteq> []"
  "plainParse (plainStringify (JObj [(''date'', JStr ''2015-06-01'')] None))
   = Some (JObj [(''date'', JStr ''2015-06-01'')] None)"
  by code_simp+

theorem startScraping_validates_sanitized_date_witness:
  "''2015-06-01'' = purify plainRuntime (trim ''2015-06-01'') \<and>
   matchesDatePattern ''2015-06-01'' \<and>
   parseDate plainRuntime ''2015-06-01'' = Some (utcMidnight 2015 6 1) \<and>
   minDate \<le> utcMidnight 2015 6 1 \<and> utcMidnight 2015 6 1 \<le> 1700000000000 \<and> quiet newClient \<and>
   purify plainRuntime ''2009-12-31'' = ''2009-12-31'' \<and>
   (\<exists>msg. startScraping plainRuntime 1700000000000 accepting newClient (JStr ''2009-12-31'')
           = (Got (Inr (failure (ApiError msg 400 JNull))), newClient)) \<and>
   (\<exists>more. trace (snd (startScraping plainRuntime 1700000000000 accepting newClient
                          (JStr ''2015-06-01'')))
            = trace newClient @ Fetch (nextPromise newClient) (Some ''POST'') SCRAPE
                (Some (plainStringify (JObj [(''date'', JStr ''2015-06-01'')] None))) # more)"
proof -
  have sd: "''2015-06-01'' = purify plainRuntime (trim ''2015-06-01'')"
    by (simp add: plainRuntime_def trim_2015)
  have m: "matchesDatePattern ''2015-06-01''" by (simp add: isDigit_def)
  have p: "parseDate plainRuntime ''2015-06-01'' = Some (utcMidnight 2015 6 1)"
    by (simp add: parseDate_def digitsValue_def daysInMonth_def)
  have lo: "minDate \<le> utcMidnight 2015 6 1"
    by (simp add: minDate_def utcMidnight_def DayFromYear_def daysBeforeMonth_def InLeapYear_def
          msPerDay_def)
  have hi: "utcMidnight 2015 6 1 \<le> 1700000000000"
    by (simp add: utcMidnight_def DayFromYear_def daysBeforeMonth_def InLeapYear_def msPerDay_def)
  have a: "purify plainRuntime ''2009-12-31'' = ''2009-12-31''" by (simp add: plainRuntime_def)
  have b: "purify plainRuntime ''2015-06-01'' = ''2015-06-01''" by (simp add: plainRuntime_def)
  have js: "jsonStringify plainRuntime = plainStringify" "jsonParse plainRuntime = plainParse"
    by (simp_all add: plainRuntime_def)
  note t = startScraping_validates_sanitized_date[of "''2015-06-01''" plainRuntime "''2015-06-01''"
             1700000000000 accepting newClient "utcMidnight 2015 6 1", OF sd]
  from t a have early: "\<exists>msg. startScraping plainRuntime 1700000000000 accepting newClient
                               (JStr ''2009-12-31'')
                             = (Got (Inr (failure (ApiError msg 400 JNull))), newClient)"
    by blast
  from t m p lo hi quiet_newClient
  have sent: "\<exists>more. trace (snd (startScraping plainRuntime 1700000000000 accepting newClient
                                    (JStr ''2015-06-01'')))
            = trace newClient @ Fetch (nextPromise newClient) (Some ''POST'') SCRAPE
                (body (sanitizeBody plainRuntime (scrapeOptions plainRuntime ''2015-06-01''))) # more"
    by blast
  from t m b plain_round_trip
  have "body (sanitizeBody plainRuntime (scrapeOptions plainRuntime ''2015-06-01''))
        = Some (plainStringify (JObj [(''date'', JStr ''2015-06-01'')] None))"
    by (simp only: js) blast
  with sent have sent': "\<exists>more. trace (snd (startScraping plainRuntime 1700000000000 accepting newClient
                                    (JStr ''2015-06-01'')))
            = trace newClient @ Fetch (nextPromise newClient) (Some ''POST'') SCRAPE
                (Some (plainStringify (JObj [(''date'', JStr ''2015-06-01'')] None))) # more"
    by simp
  from sd m p lo hi quiet_newClient a early sent' show ?thesis by blast
qed

theorem untrimmed_date_is_accepted_counterexample:
  "\<not> matchesDatePattern '' 2015-06-01'' \<and>
   fst (startScraping plainRuntime 1700000000000 accepting newClient (JStr '' 2015-06-01''))
     = Got (Inr (emptyResult\<lparr>success := True, data := JObj [(''message'', JStr ''started'')] None,
                    message := JStr ''Scraping started successfully''\<rparr>)) \<and>
   trace (snd (startScraping plainRuntime 1700000000000 accepting newClient (JStr '' 2015-06-01'')))
     = [Fetch 0 (Some ''POST'') ''/api/scrape''
          (Some (plainStringify (JObj [(''date'', JStr ''2015-06-01'')] None)))]"
  by code_simp


end
